theory Spec2Isabelle
  imports Complex_Main "HOL-Library.Word"
begin

unbundle bit_operations_syntax

section \<open>Runes and UTF-8 (Go's \<^verbatim>\<open>unicode/utf8\<close>)\<close>

text \<open>
  A Go string is a sequence of bytes, modelled as \<^typ>\<open>string\<close> (a list of 8-bit
  characters). A rune is a 32-bit signed integer holding a code point; it is modelled by
  its integer value.
\<close>

type_synonym rune = int

definition RuneError :: rune where
  "RuneError = 0xFFFD"

text \<open>
  \<^verbatim>\<open>utf8.DecodeRuneInString\<close>: the first code point of a byte string and its width.
  The empty string gives \<^verbatim>\<open>(RuneError, 0)\<close>, an invalid or truncated encoding
  \<^verbatim>\<open>(RuneError, 1)\<close>. The masks and shifts of the library are written as
  \<open>mod\<close> and multiplication.
\<close>

fun DecodeRuneInString :: "string \<Rightarrow> rune \<times> nat" where
  "DecodeRuneInString [] = (RuneError, 0)"
| "DecodeRuneInString (c0 # rest) =
    (let s0 = (of_char c0 :: nat) in
     if s0 < 0x80 then (int s0, 1)
     else if s0 < 0xC2 \<or> 0xF4 < s0 then (RuneError, 1)
     else
       let sz = (if s0 < 0xE0 then 2 else if s0 < 0xF0 then 3 else 4 :: nat);
           lo = (if s0 = 0xE0 then 0xA0 else if s0 = 0xF0 then 0x90 else 0x80 :: nat);
           hi = (if s0 = 0xED then 0x9F else if s0 = 0xF4 then 0x8F else 0xBF :: nat)
       in
         if length rest + 1 < sz then (RuneError, 1)
         else
           let s1 = (of_char (rest ! 0) :: nat) in
           if s1 < lo \<or> hi < s1 then (RuneError, 1)
           else if sz \<le> 2 then (int (s0 mod 32 * 64 + s1 mod 64), 2)
           else
             let s2 = (of_char (rest ! 1) :: nat) in
             if s2 < 0x80 \<or> 0xBF < s2 then (RuneError, 1)
             else if sz \<le> 3 then (int (s0 mod 16 * 4096 + s1 mod 64 * 64 + s2 mod 64), 3)
             else
               let s3 = (of_char (rest ! 2) :: nat) in
               if s3 < 0x80 \<or> 0xBF < s3 then (RuneError, 1)
               else (int (s0 mod 8 * 262144 + s1 mod 64 * 4096 + s2 mod 64 * 64 + s3 mod 64), 4))"

lemma DecodeRuneInString_size_pos: "s \<noteq> [] \<Longrightarrow> 0 < snd (DecodeRuneInString s)"
  by (cases s) (simp_all add: Let_def)

lemma DecodeRuneInString_size_le: "snd (DecodeRuneInString s) \<le> length s"
  by (cases s) (auto simp add: Let_def Suc_le_eq)

lemma DecodeRuneInString_advance:
  assumes "e < length s" and "(c, w) = DecodeRuneInString (drop e s)"
  shows "0 < w"
proof -
  have "drop e s \<noteq> []" using assms(1) by simp
  then have "0 < snd (DecodeRuneInString (drop e s))" by (rule DecodeRuneInString_size_pos)
  with assms(2) show ?thesis by (metis snd_conv)
qed

text \<open>
  \<^verbatim>\<open>utf8.AppendRune\<close>, which \<^verbatim>\<open>bytes.Buffer.WriteRune\<close> and the conversion
  \<^verbatim>\<open>string(r)\<close> use: the UTF-8 encoding of a rune; a negative rune, a surrogate and
  a rune beyond U+10FFFF are encoded as U+FFFD.
\<close>

definition EncodeRune :: "rune \<Rightarrow> string" where
  "EncodeRune r =
    (if 0 \<le> r \<and> r \<le> 0x7F then [char_of r]
     else if 0 \<le> r \<and> r \<le> 0x7FF then [char_of (0xC0 + r div 64), char_of (0x80 + r mod 64)]
     else if r < 0 \<or> 0x10FFFF < r \<or> (0xD800 \<le> r \<and> r \<le> 0xDFFF)
       then [CHR 0xEF, CHR 0xBF, CHR 0xBD]
     else if r \<le> 0xFFFF
       then [char_of (0xE0 + r div 4096), char_of (0x80 + r div 64 mod 64), char_of (0x80 + r mod 64)]
     else [char_of (0xF0 + r div 262144), char_of (0x80 + r div 4096 mod 64),
           char_of (0x80 + r div 64 mod 64), char_of (0x80 + r mod 64)])"

definition WriteRune :: "string \<Rightarrow> rune \<Rightarrow> string" where
  "WriteRune buf r = buf @ EncodeRune r"

text \<open>The slice expression \<^verbatim>\<open>s[a:b]\<close>; every use below has \<open>a \<le> b \<le> length s\<close>.\<close>

definition slice :: "string \<Rightarrow> nat \<Rightarrow> nat \<Rightarrow> string" where
  "slice s a b = take (b - a) (drop a s)"

section \<open>Scan state and result node\<close>

text \<open>
  Modelled from the spec: the type \<^verbatim>\<open>State\<close> is declared outside the source file.
  The scan state is the immutable source text, the cursor (a byte offset into it) and the
  error sink, which holds an expectation label and a byte position. The literal parsers
  read and write no other field; the whitespace hook \<^verbatim>\<open>ps.WS\<close> is a parameter of
  each parser below.
\<close>

record ParseError =
  expected :: string
  pos :: nat

record State =
  Input :: string
  Pos :: nat
  Error :: ParseError

text \<open>
  Modelled from the spec: \<^verbatim>\<open>State.ErrorHere\<close> is not part of the source file. It
  is called with the expectation only, so the position it records is the cursor of the
  state (the spec reports a rejected delimiter at the attempted opening position and a
  missing number at the scan start, both the cursor at the time of the call). The error
  sink records the furthest failure: a failure at the cursor overwrites the stored error
  when the cursor is at or beyond the stored position, and is discarded otherwise.
\<close>

definition ErrorHere :: "State \<Rightarrow> string \<Rightarrow> State" where
  "ErrorHere ps e =
    (if pos (Error ps) \<le> Pos ps then ps\<lparr>Error := \<lparr>expected = e, pos = Pos ps\<rparr>\<rparr> else ps)"

text \<open>
  Modelled from the spec: the type \<^verbatim>\<open>Result\<close> is declared outside the source file.
  A node has a decoded text, ordered children, a numeric payload tagged by kind (the field
  \<^verbatim>\<open>Result\<close> of the source, here \<open>Payload\<close>) and a byte range. \<open>Int64 i\<close> is a
  64-bit integer; \<open>Float64 q\<close> stands for the 64-bit float nearest to the rational
  \<open>q\<close>, and \<open>Float64Inf neg\<close> for an infinity, negative when \<open>neg\<close>.
\<close>

datatype Value = Int64 int | Float64 rat | Float64Inf bool

datatype Result = Result (Token: string) (Child: "Result list") (Payload: "Value option")
  (Start: nat) (End: nat)

section \<open>The segment scanner\<close>

text \<open>
  \<^verbatim>\<open>unhex\<close> ranges over the code points of its argument; the accumulator is a
  32-bit signed rune, so the shift wraps.
\<close>

function unhexLoop :: "string \<Rightarrow> rune \<Rightarrow> rune \<times> bool" where
  "unhexLoop b v =
    (if b = [] then (v, True)
     else
       let (c, w) = DecodeRuneInString b;
           v1 = signed_take_bit 31 (push_bit 4 v)
       in
         if 0x30 \<le> c \<and> c \<le> 0x39 then unhexLoop (drop w b) (v1 OR (c - 0x30))
         else if 0x61 \<le> c \<and> c \<le> 0x66 then unhexLoop (drop w b) (v1 OR (c - 0x61 + 10))
         else if 0x41 \<le> c \<and> c \<le> 0x46 then unhexLoop (drop w b) (v1 OR (c - 0x41 + 10))
         else (0, False))"
  by pat_completeness auto

termination unhexLoop
proof (relation "measure (\<lambda>(b, v). length b)", goal_cases)
  case 1
  show ?case by simp
next
  case (2 b v x c w v1)
  then have "0 < w" using DecodeRuneInString_advance [of 0 b c w] by simp
  with 2 show ?case by simp
next
  case (3 b v x c w v1)
  then have "0 < w" using DecodeRuneInString_advance [of 0 b c w] by simp
  with 3 show ?case by simp
next
  case (4 b v x c w v1)
  then have "0 < w" using DecodeRuneInString_advance [of 0 b c w] by simp
  with 4 show ?case by simp
qed

declare unhexLoop.simps [simp del]

definition unhex :: "string \<Rightarrow> rune \<times> bool" where
  "unhex b = unhexLoop b 0"

text \<open>The escape table \<^verbatim>\<open>_Escapes\<close>.\<close>

definition Escapes :: "rune \<rightharpoonup> rune" where
  "Escapes = map_of
    [(0x61, 0x07), (0x62, 0x08), (0x66, 0x0C), (0x6E, 0x0A), (0x72, 0x0D), (0x74, 0x09),
     (0x76, 0x0B)]"

definition hex4_label :: string where
  "hex4_label = ''[a-f0-9]{4}''"

definition hex_label :: string where
  "hex_label = ''[a-f0-9]''"

text \<open>
  The loop of \<^verbatim>\<open>stringImpl\<close>, from the scan position \<open>end\<close> with the optional
  buffer \<open>buf\<close> (\<open>None\<close> is the nil buffer). The result is the state, the node and the
  returned boolean.
\<close>

function stringLoop ::
  "State \<Rightarrow> Result \<Rightarrow> rune \<Rightarrow> (rune \<rightharpoonup> rune) \<Rightarrow> nat \<Rightarrow> string option
    \<Rightarrow> State \<times> Result \<times> bool" where
  "stringLoop ps node closer escapes end buf =
    (let inputLen = length (Input ps) in
     if \<not> end < inputLen then (ErrorHere ps (EncodeRune closer), node, False)
     else
       let (current, size) = DecodeRuneInString (drop end (Input ps)) in
       if current = 0x5C then
         if end + size \<ge> inputLen then (ErrorHere ps (EncodeRune closer), node, False)
         else
           let buf1 = (case buf of None \<Rightarrow> slice (Input ps) (Start node) end | Some b \<Rightarrow> b);
               (c, s) = DecodeRuneInString (drop (end + size) (Input ps))
           in
             if c = 0x75 then
               if end + size + s + 4 \<ge> inputLen
               then (ps\<lparr>Error := \<lparr>expected = hex4_label, pos = end + size + s\<rparr>\<rparr>, node, False)
               else
                 let (r, ok) = unhex (slice (Input ps) (end + size + s) (end + size + s + 4)) in
                 if \<not> ok
                 then (ps\<lparr>Error := \<lparr>expected = hex_label, pos = end + size + s\<rparr>\<rparr>, node, False)
                 else stringLoop ps node closer escapes (end + size + s + 4)
                        (Some (WriteRune buf1 r))
             else
               stringLoop ps node closer escapes (end + size + s)
                 (Some (if c = closer then WriteRune buf1 c
                        else case escapes c of
                               Some replacement \<Rightarrow> WriteRune buf1 replacement
                             | None \<Rightarrow> WriteRune (WriteRune buf1 current) c))
       else if current = closer then
         (case buf of
            None \<Rightarrow>
              (ps\<lparr>Pos := end + size\<rparr>,
               Result (slice (Input ps) (Start node) end) (Child node) (Payload node)
                 (Start node) (End node),
               True)
          | Some b \<Rightarrow>
              (ps\<lparr>Pos := end + size\<rparr>,
               Result b (Child node) (Payload node) (Start node) (End node),
               True))
       else
         stringLoop ps node closer escapes (end + size)
           (case buf of None \<Rightarrow> None | Some b \<Rightarrow> Some (WriteRune b current)))"
  by pat_completeness auto

termination stringLoop
proof (relation "measure (\<lambda>(ps, node, closer, escapes, end, buf). length (Input ps) - end)",
    goal_cases)
  case 1
  show ?case by simp
next
  case (2 ps node closer escapes e buf inputLen x current size buf1 y c s z r ok)
  then show ?case by simp
next
  case (3 ps node closer escapes e buf inputLen x current size buf1 y c s)
  then have "0 < size" using DecodeRuneInString_advance [of e "Input ps" current size] by simp
  with 3 show ?case by simp
next
  case (4 ps node closer escapes e buf inputLen x current size)
  then have "0 < size" using DecodeRuneInString_advance [of e "Input ps" current size] by simp
  with 4 show ?case by simp
qed

declare stringLoop.simps [simp del]

definition stringImpl ::
  "State \<Rightarrow> Result \<Rightarrow> rune \<Rightarrow> (rune \<rightharpoonup> rune) \<Rightarrow> State \<times> Result \<times> bool" where
  "stringImpl ps node closer escapes = stringLoop ps node closer escapes (Start node) None"

section \<open>Delimiter tables\<close>

definition PiPf :: "(rune \<times> rune) list" where
  "PiPf =
    [(0xAB, 0xBB), (0x2018, 0x2019), (0x201C, 0x201D), (0x2039, 0x203A), (0x2E02, 0x2E03),
     (0x2E04, 0x2E05), (0x2E09, 0x2E0A), (0x2E0C, 0x2E0D), (0x2E1C, 0x2E1D), (0x2E20, 0x2E21)]"

definition PsPf :: "(rune \<times> rune) list" where
  "PsPf = [(0x201A, 0x2019), (0x201E, 0x201D)]"

definition PsPe :: "(rune \<times> rune) list" where
  "PsPe =
    [(0x28, 0x29), (0x5B, 0x5D), (0x7B, 0x7D), (0xF3A, 0xF3B), (0xF3C, 0xF3D), (0x169B, 0x169C),
     (0x2045, 0x2046), (0x207D, 0x207E), (0x208D, 0x208E), (0x2768, 0x2769), (0x276A, 0x276B),
     (0x276C, 0x276D), (0x276E, 0x276F), (0x2770, 0x2771), (0x2772, 0x2773), (0x2774, 0x2775),
     (0x27C5, 0x27C6), (0x27E6, 0x27E7), (0x27E8, 0x27E9), (0x27EA, 0x27EB), (0x2983, 0x2984),
     (0x2985, 0x2986), (0x2987, 0x2988), (0x2989, 0x298A), (0x298B, 0x298C), (0x2991, 0x2992),
     (0x2993, 0x2994), (0x2995, 0x2996), (0x2997, 0x2998), (0x29D8, 0x29D9), (0x29DA, 0x29DB),
     (0x29FC, 0x29FD), (0x3008, 0x3009), (0x300A, 0x300B), (0x300C, 0x300D), (0x300E, 0x300F),
     (0x3010, 0x3011), (0x3014, 0x3015), (0x3016, 0x3017), (0x3018, 0x3019), (0x301A, 0x301B),
     (0x301D, 0x301E), (0xFE17, 0xFE18), (0xFE35, 0xFE36), (0xFE37, 0xFE38), (0xFE39, 0xFE3A),
     (0xFE3B, 0xFE3C), (0xFE3D, 0xFE3E), (0xFE3F, 0xFE40), (0xFE41, 0xFE42), (0xFE43, 0xFE44),
     (0xFE47, 0xFE48), (0xFE59, 0xFE5A), (0xFE5B, 0xFE5C), (0xFE5D, 0xFE5E), (0xFF08, 0xFF09),
     (0xFF3B, 0xFF3D), (0xFF5B, 0xFF5D), (0xFF5F, 0xFF60), (0xFF62, 0xFF63), (0x2E28, 0x2E29)]"

definition SmSm :: "(rune \<times> rune) list" where
  "SmSm = [(0x3C, 0x3E)]"

text \<open>
  \<^verbatim>\<open>unicode.IsPunct\<close> of the Go library: a code point up to U+00FF is looked up in the
  Latin-1 property table, whose punctuation entries are listed here; any other rune is
  looked up in the range tables of category P, which are the parameter \<open>punctTable\<close>.
\<close>

definition latin1Punct :: "rune list" where
  "latin1Punct =
    [0x21, 0x22, 0x23, 0x25, 0x26, 0x27, 0x28, 0x29, 0x2A, 0x2C, 0x2D, 0x2E, 0x2F, 0x3A, 0x3B,
     0x3F, 0x40, 0x5B, 0x5C, 0x5D, 0x5F, 0x7B, 0x7D, 0xA1, 0xA7, 0xAB, 0xB6, 0xB7, 0xBB, 0xBF]"

definition IsPunct :: "(rune \<Rightarrow> bool) \<Rightarrow> rune \<Rightarrow> bool" where
  "IsPunct punctTable r =
    (if 0 \<le> r \<and> r \<le> 0xFF then r \<in> set latin1Punct else punctTable r)"

text \<open>The loop of \<^verbatim>\<open>IsValidRegexpDelimiter\<close> over the four tables, in order.\<close>

fun lookupPairs :: "(rune \<times> rune) list list \<Rightarrow> rune \<Rightarrow> rune option" where
  "lookupPairs [] r = None"
| "lookupPairs (m # ms) r =
    (case map_of m r of Some close \<Rightarrow> Some close | None \<Rightarrow> lookupPairs ms r)"

definition IsValidRegexpDelimiter :: "(rune \<Rightarrow> bool) \<Rightarrow> rune \<Rightarrow> bool \<times> rune" where
  "IsValidRegexpDelimiter punctTable r =
    (case lookupPairs [PiPf, PsPf, PsPe, SmSm] r of
       Some close \<Rightarrow> (True, close)
     | None \<Rightarrow> if IsPunct punctTable r \<or> r = 0x3E then (True, r) else (False, - 1))"

section \<open>The literal parsers\<close>

text \<open>
  \<^verbatim>\<open>bytes.Runes\<close>: the code points of a byte string, an invalid byte giving
  \<^verbatim>\<open>RuneError\<close>.
\<close>

function Runes :: "string \<Rightarrow> rune list" where
  "Runes s =
    (if s = [] then []
     else let (r, w) = DecodeRuneInString s in r # Runes (drop w s))"
  by pat_completeness auto
termination Runes
proof (relation "measure length", goal_cases)
  case 1
  show ?case by simp
next
  case (2 s x r w)
  then have "0 < w" using DecodeRuneInString_advance [of 0 s r w] by simp
  with 2 show ?case by simp
qed

declare Runes.simps [simp del]

definition stringContainsRune :: "string \<Rightarrow> rune \<Rightarrow> bool" where
  "stringContainsRune s r \<longleftrightarrow> r \<in> set (Runes s)"

definition with_Start :: "Result \<Rightarrow> nat \<Rightarrow> Result" where
  "with_Start node k = Result (Token node) (Child node) (Payload node) k (End node)"

definition with_End :: "Result \<Rightarrow> nat \<Rightarrow> Result" where
  "with_End node k = Result (Token node) (Child node) (Payload node) (Start node) k"

definition with_Child :: "Result \<Rightarrow> Result list \<Rightarrow> Result" where
  "with_Child node cs = Result (Token node) cs (Payload node) (Start node) (End node)"

definition with_Payload :: "Result \<Rightarrow> Value \<Rightarrow> Result" where
  "with_Payload node v = Result (Token node) (Child node) (Some v) (Start node) (End node)"

text \<open>
  A parser is run on the state and the node and returns both, with a flag that is false
  exactly when the run left through one of its error exits. The whitespace hook
  \<^verbatim>\<open>ps.WS\<close> is the parameter \<open>ws\<close>. \<^verbatim>\<open>NewParser\<close>, declared outside the
  source file, is given the closure and a label for diagnostics: the parser is the
  closure. The slice \<^verbatim>\<open>ps.Input[ps.Pos:]\<close> panics when the cursor is beyond the end
  of the input: that run is \<open>None\<close>.
\<close>

definition StringLit ::
  "(State \<Rightarrow> State) \<Rightarrow> string \<Rightarrow> State \<Rightarrow> Result \<Rightarrow> (State \<times> Result \<times> bool) option" where
  "StringLit ws allowedQuotes ps0 node =
    (let ps = ws ps0 in
     if length (Input ps) < Pos ps then None
     else
       let (opener, size) = DecodeRuneInString (drop (Pos ps) (Input ps)) in
       if \<not> stringContainsRune allowedQuotes opener
       then Some (ErrorHere ps allowedQuotes, node, False)
       else Some (stringImpl ps (with_Start node (Pos ps + size)) opener Escapes))"

definition CustomStringLiteral ::
  "(State \<Rightarrow> State) \<Rightarrow> (rune \<Rightarrow> bool \<times> rune) \<Rightarrow> (rune \<rightharpoonup> rune) \<Rightarrow> State \<Rightarrow> Result
    \<Rightarrow> (State \<times> Result \<times> bool) option" where
  "CustomStringLiteral ws isValid escapes ps0 node =
    (let ps = ws ps0 in
     if length (Input ps) < Pos ps then None
     else
       let (opener, size) = DecodeRuneInString (drop (Pos ps) (Input ps));
           (valid, closer) = isValid opener
       in
         if \<not> valid then Some (ErrorHere ps ''string delimiter'', node, False)
         else
           let (ps1, node1, matched) =
                 stringImpl ps (with_Start node (Pos ps + size)) closer escapes
           in
             if \<not> matched then Some (ErrorHere ps1 ''string delimiter'', node1, False)
             else Some (ps1, node1, True))"

definition UnicodeStringLiteral ::
  "(rune \<Rightarrow> bool) \<Rightarrow> (State \<Rightarrow> State) \<Rightarrow> State \<Rightarrow> Result \<Rightarrow> (State \<times> Result \<times> bool) option" where
  "UnicodeStringLiteral punctTable ws =
    CustomStringLiteral ws (IsValidRegexpDelimiter punctTable) Escapes"

definition CustomRegexpMatchLiteral ::
  "(State \<Rightarrow> State) \<Rightarrow> (rune \<Rightarrow> bool \<times> rune) \<Rightarrow> (rune \<rightharpoonup> rune) \<Rightarrow> State \<Rightarrow> Result
    \<Rightarrow> (State \<times> Result \<times> bool) option" where
  "CustomRegexpMatchLiteral ws isValid escapes ps0 node =
    (let ps = ws ps0 in
     if length (Input ps) < Pos ps then None
     else
       let (opener, size) = DecodeRuneInString (drop (Pos ps) (Input ps));
           (valid, closer) = isValid opener
       in
         if \<not> valid then Some (ErrorHere ps ''regexp delimiter'', node, False)
         else
           let (ps1, node1, matched) =
                 stringImpl ps (with_Start node (Pos ps + size)) closer escapes
           in
             if \<not> matched then Some (ErrorHere ps1 (EncodeRune closer), node1, False)
             else Some (ps1, node1, True))"

definition UnicodeRegexpMatchLiteral ::
  "(rune \<Rightarrow> bool) \<Rightarrow> (State \<Rightarrow> State) \<Rightarrow> State \<Rightarrow> Result \<Rightarrow> (State \<times> Result \<times> bool) option" where
  "UnicodeRegexpMatchLiteral punctTable ws =
    CustomRegexpMatchLiteral ws (IsValidRegexpDelimiter punctTable) Escapes"

text \<open>
  The replace form. The two children are copies of the node, so the node itself changes
  only at the last statement. After a successful first segment the cursor is within the
  input, so the second slice cannot panic. The body of the closure after the first
  segment is \<open>secondSegment\<close> (the second opening delimiter), then
  \<open>replacementSegment\<close> (the second scan and the children).
\<close>

definition replacementSegment :: "State \<Rightarrow> Result \<Rightarrow> Result \<Rightarrow> rune \<Rightarrow> State \<times> Result \<times> bool" where
  "replacementSegment ps2 node child1 closer2 =
    (let (ps3, child2, matched) = stringImpl ps2 (with_Start node (Pos ps2)) closer2 Escapes in
     if \<not> matched then (ErrorHere ps3 (EncodeRune closer2), node, False)
     else (ps3, with_Child node [child1, child2], True))"

definition secondSegment ::
  "(rune \<Rightarrow> bool) \<Rightarrow> State \<Rightarrow> Result \<Rightarrow> Result \<Rightarrow> rune \<Rightarrow> rune \<Rightarrow> State \<times> Result \<times> bool" where
  "secondSegment punctTable ps1 node child1 opener closer =
    (if closer \<noteq> opener then
       let (opener2, size2) = DecodeRuneInString (drop (Pos ps1) (Input ps1));
           (valid, closer2) = IsValidRegexpDelimiter punctTable opener2;
           ps2 = ps1\<lparr>Pos := Pos ps1 + size2\<rparr>
       in
         if \<not> valid then (ErrorHere ps2 ''regexp delimiter'', node, False)
         else replacementSegment ps2 node child1 closer2
     else replacementSegment ps1 node child1 closer)"

definition CustomRegexpReplaceLiteral ::
  "(rune \<Rightarrow> bool) \<Rightarrow> (State \<Rightarrow> State) \<Rightarrow> (rune \<Rightarrow> bool \<times> rune) \<Rightarrow> (rune \<rightharpoonup> rune) \<Rightarrow> State
    \<Rightarrow> Result \<Rightarrow> (State \<times> Result \<times> bool) option" where
  "CustomRegexpReplaceLiteral punctTable ws isValid escapes ps0 node =
    (let ps = ws ps0 in
     if length (Input ps) < Pos ps then None
     else
       let (opener, size) = DecodeRuneInString (drop (Pos ps) (Input ps));
           (valid, closer) = isValid opener
       in
         if \<not> valid then Some (ErrorHere ps ''regexp delimiter'', node, False)
         else
           let psa = ps\<lparr>Pos := Pos ps + size\<rparr>;
               (ps1, child1, matched) = stringImpl psa (with_Start node (Pos psa)) closer escapes
           in
             if \<not> matched then Some (ErrorHere ps1 (EncodeRune closer), node, False)
             else Some (secondSegment punctTable ps1 node child1 opener closer))"

definition UnicodeRegexpReplaceLiteral ::
  "(rune \<Rightarrow> bool) \<Rightarrow> (State \<Rightarrow> State) \<Rightarrow> State \<Rightarrow> Result \<Rightarrow> (State \<times> Result \<times> bool) option" where
  "UnicodeRegexpReplaceLiteral punctTable ws =
    CustomRegexpReplaceLiteral punctTable ws (IsValidRegexpDelimiter punctTable) Escapes"

section \<open>The number literal\<close>

definition isDigit :: "char \<Rightarrow> bool" where
  "isDigit c \<longleftrightarrow> 0x30 \<le> (of_char c :: nat) \<and> (of_char c :: nat) \<le> 0x39"

fun decimal :: "string \<Rightarrow> nat \<Rightarrow> nat" where
  "decimal [] acc = acc"
| "decimal (c # cs) acc = decimal cs (acc * 10 + (of_char c - 0x30))"

text \<open>
  \<^verbatim>\<open>strconv.ParseInt(s, 10, 64)\<close> of the Go library, with the value it returns
  beside the error: an optional sign and at least one decimal digit, nothing else; a
  syntax error returns 0, a value outside the 64-bit signed range returns the nearest
  bound with a range error. The flag is true when there is no error.
\<close>

definition ParseInt :: "string \<Rightarrow> int \<times> bool" where
  "ParseInt s =
    (if s = [] then (0, False)
     else
       let neg = (hd s = CHR ''-'');
           body = (if hd s = CHR ''+'' \<or> hd s = CHR ''-'' then tl s else s)
       in
         if body = [] \<or> \<not> list_all isDigit body then (0, False)
         else
           let un = decimal body 0 in
           if \<not> neg \<and> 2 ^ 63 \<le> un then (2 ^ 63 - 1, False)
           else if neg \<and> 2 ^ 63 < un then (- (2 ^ 63), False)
           else (if neg then - int un else int un, True))"

text \<open>
  \<^verbatim>\<open>strconv.ParseFloat\<close> of the Go library on decimal forms, the only ones the
  bytes consumed by the number scanner can spell (a sign, digits, a dot, an exponent
  marker): an optional sign, digits with an optional dot and at least one digit, and an
  optional exponent, which needs at least one digit. The bit size 10 that the parser
  passes is treated by the library as 64. A finite result \<open>Float64 q\<close> stands for the
  64-bit float nearest to the decimal value \<open>q\<close>; the rounding itself is not modelled. A
  syntax error returns 0; a value that rounds beyond the largest finite float returns an
  infinity with a range error.
\<close>

definition decimalValue :: "string \<Rightarrow> string \<Rightarrow> int \<Rightarrow> rat" where
  "decimalValue ip fp ex =
    (let m = of_nat (decimal (ip @ fp) 0) :: rat;
         k = ex - int (length fp)
     in if 0 \<le> k then m * 10 ^ nat k else m / 10 ^ nat (- k))"

definition ParseFloat :: "string \<Rightarrow> Value \<times> bool" where
  "ParseFloat s =
    (let neg = (s \<noteq> [] \<and> hd s = CHR ''-'');
         s1 = (if s \<noteq> [] \<and> (hd s = CHR ''+'' \<or> hd s = CHR ''-'') then tl s else s);
         ip = takeWhile isDigit s1;
         r1 = dropWhile isDigit s1;
         dot = (r1 \<noteq> [] \<and> hd r1 = CHR ''.'');
         fp = (if dot then takeWhile isDigit (tl r1) else []);
         r2 = (if dot then dropWhile isDigit (tl r1) else r1)
     in
       if ip = [] \<and> fp = [] then (Float64 0, False)
       else
         let hasExp = (r2 \<noteq> [] \<and> (hd r2 = CHR ''e'' \<or> hd r2 = CHR ''E''));
             r3 = (if hasExp then tl r2 else r2);
             eneg = (hasExp \<and> r3 \<noteq> [] \<and> hd r3 = CHR ''-'');
             r4 = (if hasExp \<and> r3 \<noteq> [] \<and> (hd r3 = CHR ''+'' \<or> hd r3 = CHR ''-'') then tl r3
                   else r3)
         in
           if (\<not> hasExp \<and> r2 \<noteq> []) \<or> (hasExp \<and> (r4 = [] \<or> \<not> list_all isDigit r4))
           then (Float64 0, False)
           else
             let ex = (if hasExp then (if eneg then - int (decimal r4 0) else int (decimal r4 0))
                       else 0);
                 q = decimalValue ip fp ex
             in
               if (2 ^ 54 - 1) * 2 ^ 970 \<le> q then (Float64Inf neg, False)
               else (Float64 (if neg then - q else q), True))"

text \<open>The digit loops of \<^verbatim>\<open>NumberLit\<close>.\<close>

function digitRun :: "string \<Rightarrow> nat \<Rightarrow> nat" where
  "digitRun input end =
    (if end < length input \<and> isDigit (input ! end) then digitRun input (end + 1) else end)"
  by pat_completeness auto
termination digitRun
  by (relation "measure (\<lambda>(input, end). length input - end)") auto

declare digitRun.simps [simp del]

definition isSign :: "char \<Rightarrow> bool" where
  "isSign c \<longleftrightarrow> c = CHR ''-'' \<or> c = CHR ''+''"

text \<open>
  The scanning part of \<^verbatim>\<open>NumberLit\<close>: the offset just past the number and the float
  flag.
\<close>

definition scanNumber :: "string \<Rightarrow> nat \<Rightarrow> nat \<times> bool" where
  "scanNumber input start =
    (let inputLen = length input;
         end0 = start;
         end1 = (if end0 < inputLen \<and> isSign (input ! end0) then end0 + 1 else end0);
         end2 = digitRun input end1;
         dot = (end2 < inputLen \<and> input ! end2 = CHR ''.'');
         end3 = (if dot then end2 + 1 else end2);
         end4 = digitRun input end3;
         ex = (end4 < inputLen \<and> (input ! end4 = CHR ''e'' \<or> input ! end4 = CHR ''E''));
         end5 = (if ex then end4 + 1 else end4);
         end6 = (if ex \<and> end5 < inputLen \<and> isSign (input ! end5) then end5 + 1 else end5);
         end7 = (if ex then digitRun input end6 else end6)
     in (end7, dot \<or> ex))"

text \<open>
  The parsed value is stored in the node before the error is looked at, so a failed
  numeric parse leaves the value returned beside the error in the node.
\<close>

definition NumberLit :: "(State \<Rightarrow> State) \<Rightarrow> State \<Rightarrow> Result \<Rightarrow> State \<times> Result \<times> bool" where
  "NumberLit ws ps0 node =
    (let ps = ws ps0;
         (end, float) = scanNumber (Input ps) (Pos ps)
     in
       if end = Pos ps then (ErrorHere ps ''number'', node, False)
       else
         let (v, ok) =
               (if float then ParseFloat (slice (Input ps) (Pos ps) end)
                else let (i, ok) = ParseInt (slice (Input ps) (Pos ps) end) in (Int64 i, ok));
             node1 = with_Payload node v
         in
           if \<not> ok then (ErrorHere ps ''number'', node1, False)
           else (ps\<lparr>Pos := end\<rparr>, with_End (with_Start node1 (Pos ps)) end, True))"

section \<open>Hooks and tables for concrete runs\<close>

text \<open>A whitespace hook that skips nothing.\<close>

definition NoWhitespace :: "State \<Rightarrow> State" where
  "NoWhitespace ps = ps"

text \<open>
  A range table of punctuation that holds nothing beyond U+00FF; inputs within Latin-1
  never consult it.
\<close>

definition latin1Only :: "rune \<Rightarrow> bool" where
  "latin1Only r = False"

text \<open>A validity function that accepts only \<open>(\<close>, closed by \<open>)\<close>.\<close>

definition parenOnly :: "rune \<Rightarrow> bool \<times> rune" where
  "parenOnly r = (if r = 0x28 then (True, 0x29) else (False, - 1))"

section \<open>The outcome of a scan\<close>

text \<open>
  The shape of a successful scan that started at \<open>e\<close>: the closer is decoded at \<open>e'\<close>
  with width \<open>w\<close>, the cursor is set just past it, only the token of the node changes,
  and when the scan started without a buffer (\<open>raw\<close>) and met no backslash the token is
  the source slice.
\<close>

definition closes_at ::
  "State \<Rightarrow> Result \<Rightarrow> rune \<Rightarrow> nat \<Rightarrow> bool \<Rightarrow> State \<Rightarrow> Result \<Rightarrow> nat \<Rightarrow> nat \<Rightarrow> bool" where
  "closes_at ps node closer e raw ps' node' e' w \<longleftrightarrow>
     e \<le> e' \<and> e' < length (Input ps) \<and>
     DecodeRuneInString (drop e' (Input ps)) = (closer, w) \<and> 0 < w \<and> closer \<noteq> 0x5C \<and>
     ps' = ps\<lparr>Pos := e' + w\<rparr> \<and>
     (\<exists>tok. node' = Result tok (Child node) (Payload node) (Start node) (End node)) \<and>
     (raw \<longrightarrow> (\<forall>i. e \<le> i \<and> i < e' \<longrightarrow> Input ps ! i \<noteq> CHR 0x5C) \<longrightarrow>
        Token node' = slice (Input ps) (Start node) e')"

text \<open>
  The shape of a failed scan that started at \<open>e\<close>: either the closer was reported
  through \<open>ErrorHere\<close>, or a hex error was written at an offset beyond \<open>e\<close>.
\<close>

definition fails_from :: "State \<Rightarrow> rune \<Rightarrow> nat \<Rightarrow> State \<Rightarrow> bool" where
  "fails_from ps closer e ps' \<longleftrightarrow>
     ps' = ErrorHere ps (EncodeRune closer) \<or>
     (\<exists>p. e < p \<and>
        (ps' = ps\<lparr>Error := \<lparr>expected = hex4_label, pos = p\<rparr>\<rparr> \<or>
         ps' = ps\<lparr>Error := \<lparr>expected = hex_label, pos = p\<rparr>\<rparr>))"

section \<open>Notions of the specification\<close>

text \<open>
  Following the spec's words: a hex digit, the value the digit denotes, and the code point
  that a run of hex digits denotes (most significant digit first).
\<close>

definition isHexDigit :: "char \<Rightarrow> bool" where
  "isHexDigit c \<longleftrightarrow>
    (let n = (of_char c :: nat) in
     (0x30 \<le> n \<and> n \<le> 0x39) \<or> (0x61 \<le> n \<and> n \<le> 0x66) \<or> (0x41 \<le> n \<and> n \<le> 0x46))"

definition hexDigitValue :: "char \<Rightarrow> int" where
  "hexDigitValue c =
    (let n = int (of_char c) in
     if n \<le> 0x39 then n - 0x30 else if 0x61 \<le> n then n - 0x61 + 10 else n - 0x41 + 10)"

fun hexValue :: "string \<Rightarrow> int \<Rightarrow> int" where
  "hexValue [] v = v"
| "hexValue (c # cs) v = hexValue cs (16 * v + hexDigitValue c)"

text \<open>
  Following the spec's words: the first offending character of a \<^verbatim>\<open>\u\<close> escape whose
  digits start at offset \<open>p\<close>, that is the offset of the first of the four characters
  that is missing or is not a hex digit.
\<close>

definition firstOffending :: "string \<Rightarrow> nat \<Rightarrow> nat" where
  "firstOffending s p = p + length (takeWhile isHexDigit (take 4 (drop p s)))"

section \<open>Properties of the UTF-8 functions\<close>

lemma mod_window:
  fixes x :: nat
  assumes "a * m \<le> x" and "x < a * m + m"
  shows "x mod m = x - a * m"
proof -
  have "x = (x - a * m) + a * m" using assms(1) by simp
  then have "x mod m = ((x - a * m) + a * m) mod m" by simp
  also have "\<dots> = (x - a * m) mod m" by simp
  also have "\<dots> = x - a * m" using assms by (intro mod_less) arith
  finally show ?thesis .
qed

lemma lead2_mod: "0xC2 \<le> s0 \<and> s0 < 0xE0 \<Longrightarrow> 2 \<le> (s0::nat) mod 32" using mod_window [of 6 32 s0] by auto
lemma lead3_mod: "0xE0 < s0 \<and> s0 < 0xF0 \<Longrightarrow> 1 \<le> (s0::nat) mod 16" using mod_window [of 14 16 s0] by auto
lemma cont_A0_mod: "\<not> s1 < 0xA0 \<Longrightarrow> \<not> 0xBF < s1 \<Longrightarrow> 32 \<le> (s1::nat) mod 64" using mod_window [of 2 64 s1] by auto
lemma cont_90_mod: "\<not> s1 < 0x90 \<Longrightarrow> \<not> 0xBF < s1 \<Longrightarrow> 16 \<le> (s1::nat) mod 64" using mod_window [of 2 64 s1] by auto
lemma lead4_mod: "0xF0 < s0 \<and> s0 \<le> 0xF4 \<Longrightarrow> 1 \<le> (s0::nat) mod 8" using mod_window [of 30 8 s0] by auto

lemma DecodeRuneInString_ascii:
  assumes "DecodeRuneInString s = (r, w)" and "r < 0x80"
  shows "\<exists>c rest. s = c # rest \<and> int (of_char c) = r \<and> w = 1"
proof (cases s)
  case Nil
  with assms show ?thesis by (simp add: RuneError_def)
next
  case (Cons c0 rest)
  define s0 where "s0 = (of_char c0 :: nat)"
  define s1 where "s1 = (of_char (rest ! 0) :: nat)"
  define s2 where "s2 = (of_char (rest ! 1) :: nat)"
  define s3 where "s3 = (of_char (rest ! 2) :: nat)"
  note d = assms(1) [unfolded Cons DecodeRuneInString.simps, folded s0_def s1_def s2_def s3_def]
  consider (a) "s0 < 0x80" | (x) "0x80 \<le> s0 \<and> (s0 < 0xC2 \<or> 0xF4 < s0)"
    | (b2) "0xC2 \<le> s0 \<and> s0 < 0xE0"
    | (b3) "s0 = 0xE0" | (b3') "0xE0 < s0 \<and> s0 < 0xF0" 
    | (b4) "s0 = 0xF0" | (b4') "0xF0 < s0 \<and> s0 \<le> 0xF4"
    by linarith
  then have "s0 < 0x80 \<or> 0x80 \<le> r"
  proof cases
    case a
    then show ?thesis by simp
  next
    case x
    with d show ?thesis by (auto simp add: RuneError_def)
  next
    case b2
    then have "r = RuneError \<or> r = int (s0 mod 32 * 64 + s1 mod 64)"
      using d by (simp add: Let_def split: if_splits)
    with lead2_mod [OF b2] show ?thesis by (auto simp add: RuneError_def)
  next
    case b3
    then have "r = RuneError \<or> (\<not> s1 < 0xA0 \<and> \<not> 0xBF < s1 \<and> r = int (s0 mod 16 * 4096 + s1 mod 64 * 64 + s2 mod 64))"
      using d by (simp add: Let_def split: if_splits)
    with cont_A0_mod [of s1] show ?thesis by (auto simp add: RuneError_def)
  next
    case b3'
    then have "r = RuneError \<or> r = int (s0 mod 16 * 4096 + s1 mod 64 * 64 + s2 mod 64)"
      using d by (simp add: Let_def split: if_splits)
    with lead3_mod [OF b3'] show ?thesis by (auto simp add: RuneError_def)
  next
    case b4
    then have "r = RuneError \<or> (\<not> s1 < 0x90 \<and> \<not> 0xBF < s1 \<and> r = int (s0 mod 8 * 262144 + s1 mod 64 * 4096 + s2 mod 64 * 64 + s3 mod 64))"
      using d by (simp add: Let_def split: if_splits)
    with cont_90_mod [of s1] show ?thesis by (auto simp add: RuneError_def)
  next
    case b4'
    then have "r = RuneError \<or> r = int (s0 mod 8 * 262144 + s1 mod 64 * 4096 + s2 mod 64 * 64 + s3 mod 64)"
      using d by (simp add: Let_def split: if_splits)
    with lead4_mod [OF b4'] show ?thesis by (auto simp add: RuneError_def)
  qed
  with assms(2) have "s0 < 0x80" by simp
  with d Cons show ?thesis by (simp add: s0_def)
qed

section \<open>One iteration of the scanner loop\<close>

lemma stringLoop_at_end:
  "\<not> e < length (Input ps) \<Longrightarrow>
    stringLoop ps node closer escapes e buf = (ErrorHere ps (EncodeRune closer), node, False)"
  by (subst stringLoop.simps) (simp add: Let_def)

lemma stringLoop_backslash_last:
  assumes "e < length (Input ps)"
    and "DecodeRuneInString (drop e (Input ps)) = (0x5C, w)"
    and "length (Input ps) \<le> e + w"
  shows "stringLoop ps node closer escapes e buf = (ErrorHere ps (EncodeRune closer), node, False)"
  using assms by (subst stringLoop.simps) (simp add: Let_def)

lemma stringLoop_escape:
  assumes "e < length (Input ps)"
    and "DecodeRuneInString (drop e (Input ps)) = (0x5C, w)"
    and "e + w < length (Input ps)"
    and "DecodeRuneInString (drop (e + w) (Input ps)) = (c, s)"
    and "c \<noteq> 0x75"
  shows "stringLoop ps node closer escapes e buf =
    stringLoop ps node closer escapes (e + w + s)
      (Some (let buf1 = (case buf of None \<Rightarrow> slice (Input ps) (Start node) e | Some b \<Rightarrow> b) in
             if c = closer then WriteRune buf1 c
             else case escapes c of
                    Some replacement \<Rightarrow> WriteRune buf1 replacement
                  | None \<Rightarrow> WriteRune (WriteRune buf1 0x5C) c))"
  using assms by (subst stringLoop.simps) (simp add: Let_def)

lemma stringLoop_hex_short:
  assumes "e < length (Input ps)"
    and "DecodeRuneInString (drop e (Input ps)) = (0x5C, w)"
    and "e + w < length (Input ps)"
    and "DecodeRuneInString (drop (e + w) (Input ps)) = (0x75, s)"
    and "length (Input ps) \<le> e + w + s + 4"
  shows "stringLoop ps node closer escapes e buf =
    (ps\<lparr>Error := \<lparr>expected = hex4_label, pos = e + w + s\<rparr>\<rparr>, node, False)"
  using assms by (subst stringLoop.simps) (simp add: Let_def)

lemma stringLoop_hex_bad:
  assumes "e < length (Input ps)"
    and "DecodeRuneInString (drop e (Input ps)) = (0x5C, w)"
    and "e + w < length (Input ps)"
    and "DecodeRuneInString (drop (e + w) (Input ps)) = (0x75, s)"
    and "e + w + s + 4 < length (Input ps)"
    and "unhex (slice (Input ps) (e + w + s) (e + w + s + 4)) = (r, False)"
  shows "stringLoop ps node closer escapes e buf =
    (ps\<lparr>Error := \<lparr>expected = hex_label, pos = e + w + s\<rparr>\<rparr>, node, False)"
  using assms by (subst stringLoop.simps) (simp add: Let_def)

lemma stringLoop_hex_ok:
  assumes "e < length (Input ps)"
    and "DecodeRuneInString (drop e (Input ps)) = (0x5C, w)"
    and "e + w < length (Input ps)"
    and "DecodeRuneInString (drop (e + w) (Input ps)) = (0x75, s)"
    and "e + w + s + 4 < length (Input ps)"
    and "unhex (slice (Input ps) (e + w + s) (e + w + s + 4)) = (r, True)"
  shows "stringLoop ps node closer escapes e buf =
    stringLoop ps node closer escapes (e + w + s + 4)
      (Some (WriteRune (case buf of None \<Rightarrow> slice (Input ps) (Start node) e | Some b \<Rightarrow> b) r))"
  using assms by (subst stringLoop.simps) (simp add: Let_def)

lemma stringLoop_closer:
  assumes "e < length (Input ps)"
    and "DecodeRuneInString (drop e (Input ps)) = (closer, w)"
    and "closer \<noteq> 0x5C"
  shows "stringLoop ps node closer escapes e buf =
    (ps\<lparr>Pos := e + w\<rparr>,
     Result (case buf of None \<Rightarrow> slice (Input ps) (Start node) e | Some b \<Rightarrow> b)
       (Child node) (Payload node) (Start node) (End node),
     True)"
  using assms by (subst stringLoop.simps) (simp add: Let_def split: option.splits)

lemma stringLoop_other:
  assumes "e < length (Input ps)"
    and "DecodeRuneInString (drop e (Input ps)) = (current, w)"
    and "current \<noteq> 0x5C" and "current \<noteq> closer"
  shows "stringLoop ps node closer escapes e buf =
    stringLoop ps node closer escapes (e + w)
      (case buf of None \<Rightarrow> None | Some b \<Rightarrow> Some (WriteRune b current))"
  using assms by (subst stringLoop.simps) (simp add: Let_def)

section \<open>Successful scans\<close>

lemma of_char_backslash: "int (of_char c) = 0x5C \<Longrightarrow> c = CHR 0x5C"
proof -
  assume "int (of_char c) = 0x5C"
  then have "(of_char c :: nat) = of_char (CHR 0x5C)" by simp
  then show ?thesis by (simp only: of_char_eq_iff)
qed

lemma DecodeRuneInString_backslash:
  assumes "e < length s" and "DecodeRuneInString (drop e s) = (0x5C, w)"
  shows "s ! e = CHR 0x5C \<and> w = 1"
proof -
  obtain c rest where *: "drop e s = c # rest" "int (of_char c) = 0x5C" "w = 1"
    using DecodeRuneInString_ascii [OF assms(2)] by auto
  have "s ! e = hd (drop e s)" using assms(1) by (simp add: hd_drop_conv_nth)
  with * show ?thesis using of_char_backslash by simp
qed

lemma closes_at_escape:
  assumes "closes_at ps node closer e2 False ps' node' e' w" and "e < e2"
    and "Input ps ! e = CHR 0x5C"
  shows "closes_at ps node closer e raw ps' node' e' w"
proof -
  have "e \<le> e \<and> e < e'" using assms by (simp add: closes_at_def)
  then have "\<not> (\<forall>i. e \<le> i \<and> i < e' \<longrightarrow> Input ps ! i \<noteq> CHR 0x5C)"
    using assms(3) by blast
  then show ?thesis using assms(1,2) unfolding closes_at_def by (elim conjE, intro conjI impI) simp_all
qed

lemma closes_at_other:
  assumes "closes_at ps node closer e2 raw ps' node' e' w" and "e \<le> e2"
  shows "closes_at ps node closer e raw ps' node' e' w"
proof -
  have "(\<forall>i. e \<le> i \<and> i < e' \<longrightarrow> Input ps ! i \<noteq> CHR 0x5C) \<Longrightarrow>
        (\<forall>i. e2 \<le> i \<and> i < e' \<longrightarrow> Input ps ! i \<noteq> CHR 0x5C)"
    using assms(2) by (meson le_trans)
  then show ?thesis using assms by (auto simp add: closes_at_def)
qed


lemma stringLoop_success_shape:
  assumes "stringLoop ps node closer escapes e buf = (ps', node', True)"
  shows "\<exists>e' w. closes_at ps node closer e (buf = None) ps' node' e' w"
  using assms
proof (induction ps node closer escapes e buf rule: stringLoop.induct)
  case (1 ps node closer escapes e buf)
  show ?case
  proof (cases "e < length (Input ps)")
    case False
    with "1.prems" show ?thesis by (simp add: stringLoop_at_end)
  next
    case lt: True
    obtain current w where d: "DecodeRuneInString (drop e (Input ps)) = (current, w)"
      by fastforce
    have w: "0 < w" using DecodeRuneInString_advance [OF lt d [symmetric]] .
    show ?thesis
    proof (cases "current = 0x5C")
      case bs: True
      have at: "Input ps ! e = CHR 0x5C" using DecodeRuneInString_backslash lt d bs by blast
      show ?thesis
      proof (cases "length (Input ps) \<le> e + w")
        case True
        with "1.prems" lt d bs show ?thesis by (simp add: stringLoop_backslash_last)
      next
        case more: False
        obtain c s where d2: "DecodeRuneInString (drop (e + w) (Input ps)) = (c, s)"
          by fastforce
        show ?thesis
        proof (cases "c = 0x75")
          case u: True
          show ?thesis
          proof (cases "length (Input ps) \<le> e + w + s + 4")
            case True
            with "1.prems" lt d bs more d2 u show ?thesis by (simp add: stringLoop_hex_short)
          next
            case room: False
            obtain r ok where h: "unhex (slice (Input ps) (e + w + s) (e + w + s + 4)) = (r, ok)"
              by fastforce
            show ?thesis
            proof (cases ok)
              case False
              with "1.prems" lt d bs more d2 u room h show ?thesis
                by (simp add: stringLoop_hex_bad)
            next
              case True
              define b where "b = WriteRune (case buf of None \<Rightarrow> slice (Input ps) (Start node) e | Some b \<Rightarrow> b) r"
              have rec: "stringLoop ps node closer escapes (e + w + s + 4) (Some b) = (ps', node', True)"
                using "1.prems" lt d bs more d2 u room h True
                by (simp add: stringLoop_hex_ok b_def)
              have "\<exists>e' w'. closes_at ps node closer (e + w + s + 4) (Some b = None) ps' node' e' w'"
              proof (rule "1.IH"(1) [OF refl _ refl d [symmetric] bs _ refl refl d2 [symmetric] u _ refl
                    h [symmetric], folded b_def])
                show "\<not> \<not> e < length (Input ps)" using lt by simp
                show "\<not> length (Input ps) \<le> e + w" using more .
                show "\<not> length (Input ps) \<le> e + w + s + 4" using room .
                show "\<not> \<not> ok" using True by simp
                show "stringLoop ps node closer escapes (e + w + s + 4) (Some b) = (ps', node', True)"
                  using rec .
              qed
              then obtain e' w' where "closes_at ps node closer (e + w + s + 4) False ps' node' e' w'"
                by auto
              then have "closes_at ps node closer e (buf = None) ps' node' e' w'"
                by (rule closes_at_escape [OF _ _ at]) simp
              then show ?thesis by blast
            qed
          qed
        next
          case nu: False
          define b where "b = (let buf1 = (case buf of None \<Rightarrow> slice (Input ps) (Start node) e | Some b \<Rightarrow> b) in
             if c = closer then WriteRune buf1 c
             else case escapes c of
                    Some replacement \<Rightarrow> WriteRune buf1 replacement
                  | None \<Rightarrow> WriteRune (WriteRune buf1 0x5C) c)"
          have rec: "stringLoop ps node closer escapes (e + w + s) (Some b) = (ps', node', True)"
            using "1.prems" lt d bs more d2 nu by (simp add: stringLoop_escape b_def)
          have b_eq: "(if c = closer
                  then WriteRune (case buf of None \<Rightarrow> slice (Input ps) (Start node) e | Some b \<Rightarrow> b) c
                  else case escapes c of
                         None \<Rightarrow> WriteRune (WriteRune (case buf of None \<Rightarrow> slice (Input ps) (Start node) e | Some b \<Rightarrow> b) current) c
                       | Some x \<Rightarrow> WriteRune (case buf of None \<Rightarrow> slice (Input ps) (Start node) e | Some b \<Rightarrow> b) x) = b"
            using bs by (simp add: b_def Let_def split: option.splits)
          have "\<exists>e' w'. closes_at ps node closer (e + w + s) (Some b = None) ps' node' e' w'"
          proof (rule "1.IH"(2) [OF refl _ refl d [symmetric] bs _ refl refl d2 [symmetric] nu,
                unfolded b_eq])
            show "\<not> \<not> e < length (Input ps)" using lt by simp
            show "\<not> length (Input ps) \<le> e + w" using more .
            show "stringLoop ps node closer escapes (e + w + s) (Some b) = (ps', node', True)"
              using rec .
          qed
          then obtain e' w' where "closes_at ps node closer (e + w + s) False ps' node' e' w'"
            by auto
          then have "closes_at ps node closer e (buf = None) ps' node' e' w'"
            by (rule closes_at_escape [OF _ _ at]) (use w in simp)
          then show ?thesis by blast
        qed
      qed
    next
      case nbs: False
      show ?thesis
      proof (cases "current = closer")
        case True
        have "stringLoop ps node closer escapes e buf =
          (ps\<lparr>Pos := e + w\<rparr>,
           Result (case buf of None \<Rightarrow> slice (Input ps) (Start node) e | Some b \<Rightarrow> b)
             (Child node) (Payload node) (Start node) (End node), True)"
          using lt d nbs True by (simp add: stringLoop_closer)
        with "1.prems" have "ps' = ps\<lparr>Pos := e + w\<rparr>"
          and "node' = Result (case buf of None \<Rightarrow> slice (Input ps) (Start node) e | Some b \<Rightarrow> b)
             (Child node) (Payload node) (Start node) (End node)"
          by simp_all
        then have "closes_at ps node closer e (buf = None) ps' node' e w"
          using lt d nbs True w by (simp add: closes_at_def)
        then show ?thesis by blast
      next
        case False
        define b where "b = (case buf of None \<Rightarrow> None | Some b \<Rightarrow> Some (WriteRune b current))"
        have rec: "stringLoop ps node closer escapes (e + w) b = (ps', node', True)"
          using "1.prems" lt d nbs False by (simp add: stringLoop_other b_def)
        have "\<exists>e' w'. closes_at ps node closer (e + w) (b = None) ps' node' e' w'"
        proof (rule "1.IH"(3) [OF refl _ refl d [symmetric] nbs False, folded b_def])
          show "\<not> \<not> e < length (Input ps)" using lt by simp
          show "stringLoop ps node closer escapes (e + w) b = (ps', node', True)"
            using rec .
        qed
        moreover have "(b = None) = (buf = None)" by (simp add: b_def split: option.splits)
        ultimately obtain e' w' where "closes_at ps node closer (e + w) (buf = None) ps' node' e' w'"
          by auto
        then have "closes_at ps node closer e (buf = None) ps' node' e' w'"
          by (rule closes_at_other) simp
        then show ?thesis by blast
      qed
    qed
  qed
qed

lemmas scan_eval = stringImpl_def stringLoop.simps unhex_def unhexLoop.simps Escapes_def
  slice_def WriteRune_def EncodeRune_def char_of_def ErrorHere_def hex4_label_def hex_label_def

lemma slice_nth_mem:
  assumes "a \<le> i" and "i < b" and "i < length s"
  shows "s ! i \<in> set (slice s a b)"
proof -
  have "i - a < length (take (b - a) (drop a s))" using assms by auto
  then have "take (b - a) (drop a s) ! (i - a) \<in> set (take (b - a) (drop a s))"
    by (rule nth_mem)
  moreover have "take (b - a) (drop a s) ! (i - a) = s ! i" using assms by simp
  ultimately show ?thesis by (simp add: slice_def)
qed

section \<open>The replace form\<close>

lemmas parser_eval = StringLit_def CustomStringLiteral_def UnicodeStringLiteral_def
  CustomRegexpMatchLiteral_def UnicodeRegexpMatchLiteral_def CustomRegexpReplaceLiteral_def
  UnicodeRegexpReplaceLiteral_def secondSegment_def replacementSegment_def
  IsValidRegexpDelimiter_def PiPf_def PsPf_def PsPe_def SmSm_def IsPunct_def latin1Punct_def
  with_Start_def with_Child_def NoWhitespace_def stringContainsRune_def Runes.simps

lemma stringImpl_success_Start:
  assumes "stringImpl ps node closer escapes = (ps', node', True)"
  shows "Start node' = Start node \<and> Start node < Pos ps' \<and> Pos ps' \<le> length (Input ps) \<and>
         Input ps' = Input ps \<and> Error ps' = Error ps"
proof -
  from assms obtain e w where c: "closes_at ps node closer (Start node) True ps' node' e w"
    using stringLoop_success_shape [of ps node closer escapes "Start node" None ps' node']
    by (auto simp add: stringImpl_def)
  then have w: "DecodeRuneInString (drop e (Input ps)) = (closer, w)" and e: "e < length (Input ps)"
    by (simp_all add: closes_at_def)
  have "w \<le> length (drop e (Input ps))"
    using DecodeRuneInString_size_le [of "drop e (Input ps)"] w by simp
  then have "e + w \<le> length (Input ps)" using e by simp
  then show ?thesis using c by (auto simp add: closes_at_def)
qed

lemma replacementSegment_success:
  assumes "replacementSegment ps2 node child1 closer2 = (ps', node', True)"
  shows "\<exists>c2. node' = with_Child node [child1, c2] \<and>
           stringImpl ps2 (with_Start node (Pos ps2)) closer2 Escapes = (ps', c2, True)"
proof -
  obtain ps3 c2 m where s: "stringImpl ps2 (with_Start node (Pos ps2)) closer2 Escapes = (ps3, c2, m)"
    using prod_cases3 by blast
  with assms have m by (auto simp add: replacementSegment_def split: if_splits)
  with assms s show ?thesis by (simp add: replacementSegment_def)
qed

lemma secondSegment_success:
  assumes "secondSegment pt ps1 node child1 opener closer = (ps', node', True)"
  shows "\<exists>c2 ps2 closer2. node' = with_Child node [child1, c2] \<and> Pos ps1 \<le> Pos ps2 \<and>
           stringImpl ps2 (with_Start node (Pos ps2)) closer2 Escapes = (ps', c2, True)"
proof (cases "closer \<noteq> opener")
  case False
  with assms have "replacementSegment ps1 node child1 closer = (ps', node', True)"
    by (simp add: secondSegment_def)
  from replacementSegment_success [OF this] show ?thesis by blast
next
  case True
  obtain opener2 w2 where d: "DecodeRuneInString (drop (Pos ps1) (Input ps1)) = (opener2, w2)"
    by fastforce
  obtain valid closer2 where v: "IsValidRegexpDelimiter pt opener2 = (valid, closer2)"
    by fastforce
  from assms True d v have valid
    by (auto simp add: secondSegment_def Let_def split: if_splits)
  with assms True d v
  have "replacementSegment (ps1\<lparr>Pos := Pos ps1 + w2\<rparr>) node child1 closer2 = (ps', node', True)"
    by (simp add: secondSegment_def Let_def)
  from replacementSegment_success [OF this] obtain c2 where
    "node' = with_Child node [child1, c2]"
    "stringImpl (ps1\<lparr>Pos := Pos ps1 + w2\<rparr>) (with_Start node (Pos (ps1\<lparr>Pos := Pos ps1 + w2\<rparr>)))
       closer2 Escapes = (ps', c2, True)"
    by blast
  moreover have "Pos ps1 \<le> Pos (ps1\<lparr>Pos := Pos ps1 + w2\<rparr>)" by simp
  ultimately show ?thesis by blast
qed

lemma replace_success:
  assumes "CustomRegexpReplaceLiteral pt ws isValid escapes ps node = Some (ps', node', True)"
  shows "\<exists>c1 c2 psa closer ps1 ps2 closer2.
           node' = with_Child node [c1, c2] \<and>
           stringImpl psa (with_Start node (Pos psa)) closer escapes = (ps1, c1, True) \<and>
           Pos ps1 \<le> Pos ps2 \<and>
           stringImpl ps2 (with_Start node (Pos ps2)) closer2 Escapes = (ps', c2, True)"
proof -
  obtain opener w where d: "DecodeRuneInString (drop (Pos (ws ps)) (Input (ws ps))) = (opener, w)"
    by fastforce
  obtain valid closer where v: "isValid opener = (valid, closer)"
    by fastforce
  let ?psa = "(ws ps)\<lparr>Pos := Pos (ws ps) + w\<rparr>"
  obtain ps1 c1 m where
    s: "stringImpl ?psa (with_Start node (Pos (ws ps) + w)) closer escapes = (ps1, c1, m)"
    using prod_cases3 by blast
  from assms have r: "\<not> length (Input (ws ps)) < Pos (ws ps)"
    by (auto simp add: CustomRegexpReplaceLiteral_def Let_def split: if_splits)
  from assms r d v have valid
    by (auto simp add: CustomRegexpReplaceLiteral_def Let_def split: if_splits)
  from assms r d v \<open>valid\<close> s have m
    by (auto simp add: CustomRegexpReplaceLiteral_def Let_def split: if_splits)
  from assms r d v \<open>valid\<close> s \<open>m\<close>
  have "secondSegment pt ps1 node c1 opener closer = (ps', node', True)"
    by (simp add: CustomRegexpReplaceLiteral_def Let_def)
  from secondSegment_success [OF this] obtain c2 ps2 closer2 where
    "node' = with_Child node [c1, c2]" "Pos ps1 \<le> Pos ps2"
    "stringImpl ps2 (with_Start node (Pos ps2)) closer2 Escapes = (ps', c2, True)"
    by blast
  moreover have "stringImpl ?psa (with_Start node (Pos ?psa)) closer escapes = (ps1, c1, True)"
    using s \<open>m\<close> by simp
  ultimately show ?thesis by blast
qed

section \<open>The hex escape\<close>

lemma shift_or_digit:
  fixes v d :: int
  assumes "0 \<le> v" and "v < 2 ^ 27" and "0 \<le> d" and "d < 16"
  shows "signed_take_bit 31 (push_bit 4 v) OR d = 16 * v + d"
proof -
  have p: "push_bit 4 v = 16 * v" by (simp add: push_bit_eq_mult)
  have "signed_take_bit 31 (16 * v) = 16 * v"
    using assms by (intro signed_take_bit_int_eq_self) simp_all
  moreover have "16 * v + d = (16 * v) OR d"
  proof (rule disjunctive_add)
    fix n
    have d4: "d = take_bit 4 d" using assms by (simp add: take_bit_int_eq_self)
    show "\<not> bit (16 * v) n \<or> \<not> bit d n"
    proof (cases "n < 4")
      case True
      have "\<not> bit (push_bit 4 v) n" using True by (simp add: bit_push_bit_iff)
      then show ?thesis by (simp add: p)
    next
      case False
      have "\<not> bit (take_bit 4 d) n" using False by (simp add: bit_take_bit_iff)
      then show ?thesis using d4 by simp
    qed
  qed
  ultimately show ?thesis by (simp add: p)
qed

lemma DecodeRuneInString_ascii_byte:
  "(of_char c :: nat) < 0x80 \<Longrightarrow> DecodeRuneInString (c # cs) = (int (of_char c), 1)"
  by simp

lemma DecodeRuneInString_head_cases:
  assumes "DecodeRuneInString (c # cs) = (r, w)"
  shows "(r = int (of_char c) \<and> w = 1 \<and> (of_char c :: nat) < 0x80) \<or> 0x80 \<le> r"
proof (cases "r < 0x80")
  case True
  from DecodeRuneInString_ascii [OF assms True] have "int (of_char c) = r" "w = 1" by auto
  with True show ?thesis by auto
next
  case False
  then show ?thesis by simp
qed

lemma isHexDigit_value:
  assumes "isHexDigit c"
  shows "(of_char c :: nat) < 0x80 \<and> 0 \<le> hexDigitValue c \<and> hexDigitValue c < 16"
  using assms by (auto simp add: isHexDigit_def hexDigitValue_def Let_def)

lemma unhexLoop_step:
  assumes "DecodeRuneInString b = (c, w)" and "b \<noteq> []"
  shows "unhexLoop b v =
    (let v1 = signed_take_bit 31 (push_bit 4 v) in
     if 0x30 \<le> c \<and> c \<le> 0x39 then unhexLoop (drop w b) (v1 OR (c - 0x30))
     else if 0x61 \<le> c \<and> c \<le> 0x66 then unhexLoop (drop w b) (v1 OR (c - 0x61 + 10))
     else if 0x41 \<le> c \<and> c \<le> 0x46 then unhexLoop (drop w b) (v1 OR (c - 0x41 + 10))
     else (0, False))"
  using assms by (subst unhexLoop.simps) (simp del: DecodeRuneInString.simps)

lemma unhexLoop_digit:
  assumes "isHexDigit c" and "0 \<le> v" and "v < 2 ^ 27"
  shows "unhexLoop (c # cs) v = unhexLoop cs (16 * v + hexDigitValue c)"
proof -
  have a: "(of_char c :: nat) < 0x80" using isHexDigit_value [OF assms(1)] by simp
  have d: "DecodeRuneInString (c # cs) = (int (of_char c), 1)"
    using a by (rule DecodeRuneInString_ascii_byte)
  have s: "signed_take_bit 31 (push_bit 4 v) OR hexDigitValue c = 16 * v + hexDigitValue c"
    using isHexDigit_value [OF assms(1)] assms(2,3) by (intro shift_or_digit) simp_all
  consider (dec) "0x30 \<le> (of_char c :: nat)" "(of_char c :: nat) \<le> 0x39"
    | (lo) "0x61 \<le> (of_char c :: nat)" "(of_char c :: nat) \<le> 0x66"
    | (up) "0x41 \<le> (of_char c :: nat)" "(of_char c :: nat) \<le> 0x46"
    using assms(1) by (auto simp add: isHexDigit_def Let_def)
  then show ?thesis
  proof cases
    case dec
    then have "hexDigitValue c = int (of_char c) - 0x30" by (simp add: hexDigitValue_def)
    with s dec show ?thesis by (simp add: unhexLoop_step [OF d])
  next
    case lo
    then have "hexDigitValue c = int (of_char c) - 0x61 + 10" by (simp add: hexDigitValue_def)
    with s lo show ?thesis by (simp add: unhexLoop_step [OF d])
  next
    case up
    then have "hexDigitValue c = int (of_char c) - 0x41 + 10" by (simp add: hexDigitValue_def)
    with s up show ?thesis by (simp add: unhexLoop_step [OF d])
  qed
qed

lemma unhexLoop_not_digit:
  assumes "\<not> isHexDigit c"
  shows "unhexLoop (c # cs) v = (0, False)"
proof -
  obtain r w where d: "DecodeRuneInString (c # cs) = (r, w)" by fastforce
  have "\<not> (0x30 \<le> r \<and> r \<le> 0x39)" "\<not> (0x61 \<le> r \<and> r \<le> 0x66)" "\<not> (0x41 \<le> r \<and> r \<le> 0x46)"
    using DecodeRuneInString_head_cases [OF d] assms
    by (auto simp add: isHexDigit_def Let_def)
  then show ?thesis by (auto simp add: unhexLoop_step [OF d] Let_def)
qed

lemma unhexLoop_hex:
  assumes "list_all isHexDigit b" and "0 \<le> v" and "v < 16 ^ k" and "k + length b \<le> 7"
  shows "unhexLoop b v = (hexValue b v, True) \<and> 0 \<le> hexValue b v \<and> hexValue b v < 16 ^ (k + length b)"
  using assms
proof (induction b arbitrary: v k)
  case Nil
  then show ?case by (simp add: unhexLoop.simps)
next
  case (Cons c cs)
  have k6: "k \<le> 6" using Cons.prems(4) by simp
  have "(16 :: int) ^ k \<le> 16 ^ 6" using k6 by (intro power_increasing) simp_all
  then have v27: "v < 2 ^ 27" using Cons.prems(3) by simp
  have c: "isHexDigit c" and cs: "list_all isHexDigit cs" using Cons.prems(1) by simp_all
  have dv: "0 \<le> hexDigitValue c" "hexDigitValue c < 16" using isHexDigit_value [OF c] by simp_all
  have "16 * v + hexDigitValue c < 16 * (v + 1)" using dv by simp
  also have "\<dots> \<le> 16 * 16 ^ k" using Cons.prems(3) by simp
  finally have b: "16 * v + hexDigitValue c < 16 ^ Suc k" by simp
  have "unhexLoop cs (16 * v + hexDigitValue c) = (hexValue cs (16 * v + hexDigitValue c), True) \<and>
      0 \<le> hexValue cs (16 * v + hexDigitValue c) \<and>
      hexValue cs (16 * v + hexDigitValue c) < 16 ^ (Suc k + length cs)"
    using Cons.prems(2,4) dv by (intro Cons.IH [OF cs _ b]) simp_all
  then show ?case
    using unhexLoop_digit [OF c Cons.prems(2) v27, of cs] by simp
qed

lemma unhexLoop_bad:
  assumes "\<not> list_all isHexDigit b" and "0 \<le> v" and "v < 16 ^ k" and "k + length b \<le> 7"
  shows "unhexLoop b v = (0, False)"
  using assms
proof (induction b arbitrary: v k)
  case Nil
  then show ?case by simp
next
  case (Cons c cs)
  show ?case
  proof (cases "isHexDigit c")
    case False
    then show ?thesis by (rule unhexLoop_not_digit)
  next
    case True
    have k6: "k \<le> 6" using Cons.prems(4) by simp
    have "(16 :: int) ^ k \<le> 16 ^ 6" using k6 by (intro power_increasing) simp_all
    then have v27: "v < 2 ^ 27" using Cons.prems(3) by simp
    have dv: "0 \<le> hexDigitValue c" "hexDigitValue c < 16" using isHexDigit_value [OF True] by simp_all
    have "16 * v + hexDigitValue c < 16 * (v + 1)" using dv by simp
    also have "\<dots> \<le> 16 * 16 ^ k" using Cons.prems(3) by simp
    finally have b: "16 * v + hexDigitValue c < 16 ^ Suc k" by simp
    have cs: "\<not> list_all isHexDigit cs" using Cons.prems(1) True by simp
    have "unhexLoop cs (16 * v + hexDigitValue c) = (0, False)"
      using Cons.prems(2,4) dv by (intro Cons.IH [OF cs _ b]) simp_all
    then show ?thesis using unhexLoop_digit [OF True Cons.prems(2) v27, of cs] by simp
  qed
qed

lemma unhex_four:
  assumes "length b = 4"
  shows "unhex b = (if list_all isHexDigit b then (hexValue b 0, True) else (0, False))"
    and "list_all isHexDigit b \<Longrightarrow> 0 \<le> hexValue b 0 \<and> hexValue b 0 \<le> 0xFFFF"
proof -
  show "unhex b = (if list_all isHexDigit b then (hexValue b 0, True) else (0, False))"
    using unhexLoop_hex [of b 0 0] unhexLoop_bad [of b 0 0] assms by (simp add: unhex_def)
  show "0 \<le> hexValue b 0 \<and> hexValue b 0 \<le> 0xFFFF" if "list_all isHexDigit b"
    using unhexLoop_hex [OF that, of 0 0] assms by simp
qed

section \<open>Failed scans\<close>

lemma fails_from_mono:
  assumes "fails_from ps closer e2 ps'" and "e \<le> e2"
  shows "fails_from ps closer e ps'"
proof -
  have "e < p" if "e2 < p" for p using that assms(2) by simp
  then show ?thesis using assms(1) unfolding fails_from_def by blast
qed

lemma stringLoop_failure_shape:
  assumes "stringLoop ps node closer escapes e buf = (ps', node', False)"
  shows "node' = node \<and> fails_from ps closer e ps'"
  using assms
proof (induction ps node closer escapes e buf rule: stringLoop.induct)
  case (1 ps node closer escapes e buf)
  show ?case
  proof (cases "e < length (Input ps)")
    case False
    with "1.prems" show ?thesis by (simp add: stringLoop_at_end fails_from_def)
  next
    case lt: True
    obtain current w where d: "DecodeRuneInString (drop e (Input ps)) = (current, w)"
      by fastforce
    have w: "0 < w" using DecodeRuneInString_advance [OF lt d [symmetric]] .
    show ?thesis
    proof (cases "current = 0x5C")
      case bs: True
      show ?thesis
      proof (cases "length (Input ps) \<le> e + w")
        case True
        with "1.prems" lt d bs show ?thesis
          by (simp add: stringLoop_backslash_last fails_from_def)
      next
        case more: False
        obtain c s where d2: "DecodeRuneInString (drop (e + w) (Input ps)) = (c, s)"
          by fastforce
        show ?thesis
        proof (cases "c = 0x75")
          case u: True
          show ?thesis
          proof (cases "length (Input ps) \<le> e + w + s + 4")
            case True
            then have "stringLoop ps node closer escapes e buf =
                (ps\<lparr>Error := \<lparr>expected = hex4_label, pos = e + w + s\<rparr>\<rparr>, node, False)"
              using lt d bs more d2 u by (simp add: stringLoop_hex_short)
            with "1.prems" have "node' = node"
              "ps' = ps\<lparr>Error := \<lparr>expected = hex4_label, pos = e + w + s\<rparr>\<rparr>" by simp_all
            moreover have "e < e + w + s" using w by simp
            ultimately show ?thesis unfolding fails_from_def by blast
          next
            case room: False
            obtain r ok where h: "unhex (slice (Input ps) (e + w + s) (e + w + s + 4)) = (r, ok)"
              by fastforce
            show ?thesis
            proof (cases ok)
              case False
              then have "stringLoop ps node closer escapes e buf =
                  (ps\<lparr>Error := \<lparr>expected = hex_label, pos = e + w + s\<rparr>\<rparr>, node, False)"
                using lt d bs more d2 u room h by (simp add: stringLoop_hex_bad)
              with "1.prems" have "node' = node"
                "ps' = ps\<lparr>Error := \<lparr>expected = hex_label, pos = e + w + s\<rparr>\<rparr>" by simp_all
              moreover have "e < e + w + s" using w by simp
              ultimately show ?thesis unfolding fails_from_def by blast
            next
              case True
              define b where "b = WriteRune (case buf of None \<Rightarrow> slice (Input ps) (Start node) e | Some b \<Rightarrow> b) r"
              have rec: "stringLoop ps node closer escapes (e + w + s + 4) (Some b) = (ps', node', False)"
                using "1.prems" lt d bs more d2 u room h True
                by (simp add: stringLoop_hex_ok b_def)
              have "node' = node \<and> fails_from ps closer (e + w + s + 4) ps'"
              proof (rule "1.IH"(1) [OF refl _ refl d [symmetric] bs _ refl refl d2 [symmetric] u _ refl
                    h [symmetric], folded b_def])
                show "\<not> \<not> e < length (Input ps)" using lt by simp
                show "\<not> length (Input ps) \<le> e + w" using more .
                show "\<not> length (Input ps) \<le> e + w + s + 4" using room .
                show "\<not> \<not> ok" using True by simp
                show "stringLoop ps node closer escapes (e + w + s + 4) (Some b) = (ps', node', False)"
                  using rec .
              qed
              then show ?thesis using fails_from_mono [of ps closer "e + w + s + 4" ps' e] by simp
            qed
          qed
        next
          case nu: False
          define b where "b = (let buf1 = (case buf of None \<Rightarrow> slice (Input ps) (Start node) e | Some b \<Rightarrow> b) in
             if c = closer then WriteRune buf1 c
             else case escapes c of
                    Some replacement \<Rightarrow> WriteRune buf1 replacement
                  | None \<Rightarrow> WriteRune (WriteRune buf1 0x5C) c)"
          have rec: "stringLoop ps node closer escapes (e + w + s) (Some b) = (ps', node', False)"
            using "1.prems" lt d bs more d2 nu by (simp add: stringLoop_escape b_def)
          have b_eq: "(if c = closer
                  then WriteRune (case buf of None \<Rightarrow> slice (Input ps) (Start node) e | Some b \<Rightarrow> b) c
                  else case escapes c of
                         None \<Rightarrow> WriteRune (WriteRune (case buf of None \<Rightarrow> slice (Input ps) (Start node) e | Some b \<Rightarrow> b) current) c
                       | Some x \<Rightarrow> WriteRune (case buf of None \<Rightarrow> slice (Input ps) (Start node) e | Some b \<Rightarrow> b) x) = b"
            using bs by (simp add: b_def Let_def split: option.splits)
          have "node' = node \<and> fails_from ps closer (e + w + s) ps'"
          proof (rule "1.IH"(2) [OF refl _ refl d [symmetric] bs _ refl refl d2 [symmetric] nu,
                unfolded b_eq])
            show "\<not> \<not> e < length (Input ps)" using lt by simp
            show "\<not> length (Input ps) \<le> e + w" using more .
            show "stringLoop ps node closer escapes (e + w + s) (Some b) = (ps', node', False)"
              using rec .
          qed
          then show ?thesis using fails_from_mono [of ps closer "e + w + s" ps' e] by simp
        qed
      qed
    next
      case nbs: False
      show ?thesis
      proof (cases "current = closer")
        case True
        with "1.prems" lt d nbs show ?thesis by (simp add: stringLoop_closer)
      next
        case False
        define b where "b = (case buf of None \<Rightarrow> None | Some b \<Rightarrow> Some (WriteRune b current))"
        have rec: "stringLoop ps node closer escapes (e + w) b = (ps', node', False)"
          using "1.prems" lt d nbs False by (simp add: stringLoop_other b_def)
        have "node' = node \<and> fails_from ps closer (e + w) ps'"
        proof (rule "1.IH"(3) [OF refl _ refl d [symmetric] nbs False, folded b_def])
          show "\<not> \<not> e < length (Input ps)" using lt by simp
          show "stringLoop ps node closer escapes (e + w) b = (ps', node', False)"
            using rec .
        qed
        then show ?thesis using fails_from_mono [of ps closer "e + w" ps' e] by simp
      qed
    qed
  qed
qed

lemma ErrorHere_simps:
  "Pos (ErrorHere ps l) = Pos ps" "Input (ErrorHere ps l) = Input ps"
  "pos (Error ps) \<le> Pos ps \<Longrightarrow> Error (ErrorHere ps l) = \<lparr>expected = l, pos = Pos ps\<rparr>"
  "\<not> pos (Error ps) \<le> Pos ps \<Longrightarrow> ErrorHere ps l = ps"
  "Pos ps \<le> pos (Error (ErrorHere ps l))" "pos (Error ps) \<le> pos (Error (ErrorHere ps l))"
  by (simp_all add: ErrorHere_def)

lemma stringImpl_failure:
  assumes "stringImpl ps node closer escapes = (ps', node', False)"
  shows "node' = node \<and> Pos ps' = Pos ps \<and> Input ps' = Input ps \<and>
         (ps' = ErrorHere ps (EncodeRune closer) \<or>
          (\<exists>p. Start node < p \<and>
             (ps' = ps\<lparr>Error := \<lparr>expected = hex4_label, pos = p\<rparr>\<rparr> \<or>
              ps' = ps\<lparr>Error := \<lparr>expected = hex_label, pos = p\<rparr>\<rparr>)))"
proof -
  have f: "node' = node" "fails_from ps closer (Start node) ps'"
    using stringLoop_failure_shape [of ps node closer escapes "Start node" None ps' node'] assms
    by (simp_all add: stringImpl_def)
  from f(2) have "Pos ps' = Pos ps \<and> Input ps' = Input ps"
    unfolding fails_from_def by (auto simp add: ErrorHere_def)
  with f show ?thesis unfolding fails_from_def by blast
qed

section \<open>Rejected delimiters\<close>

lemma first_delimiter_rejected:
  assumes "Pos (ws ps) \<le> length (Input (ws ps))"
    and "DecodeRuneInString (drop (Pos (ws ps)) (Input (ws ps))) = (opener, w)"
  shows "\<not> stringContainsRune allowedQuotes opener \<Longrightarrow>
           StringLit ws allowedQuotes ps node = Some (ErrorHere (ws ps) allowedQuotes, node, False)"
    and "\<not> fst (isValid opener) \<Longrightarrow>
           CustomStringLiteral ws isValid escapes ps node =
             Some (ErrorHere (ws ps) ''string delimiter'', node, False)"
    and "\<not> fst (isValid opener) \<Longrightarrow>
           CustomRegexpMatchLiteral ws isValid escapes ps node =
             Some (ErrorHere (ws ps) ''regexp delimiter'', node, False)"
    and "\<not> fst (isValid opener) \<Longrightarrow>
           CustomRegexpReplaceLiteral pt ws isValid escapes ps node =
             Some (ErrorHere (ws ps) ''regexp delimiter'', node, False)"
proof -
  show "StringLit ws allowedQuotes ps node = Some (ErrorHere (ws ps) allowedQuotes, node, False)"
    if "\<not> stringContainsRune allowedQuotes opener"
    using assms that by (simp add: StringLit_def Let_def)
  obtain valid closer where v: "isValid opener = (valid, closer)" by fastforce
  show "CustomStringLiteral ws isValid escapes ps node =
             Some (ErrorHere (ws ps) ''string delimiter'', node, False)"
    if "\<not> fst (isValid opener)"
    using assms that v by (simp add: CustomStringLiteral_def Let_def)
  show "CustomRegexpMatchLiteral ws isValid escapes ps node =
             Some (ErrorHere (ws ps) ''regexp delimiter'', node, False)"
    if "\<not> fst (isValid opener)"
    using assms that v by (simp add: CustomRegexpMatchLiteral_def Let_def)
  show "CustomRegexpReplaceLiteral pt ws isValid escapes ps node =
             Some (ErrorHere (ws ps) ''regexp delimiter'', node, False)"
    if "\<not> fst (isValid opener)"
    using assms that v by (simp add: CustomRegexpReplaceLiteral_def Let_def)
qed

lemma replace_after_first_segment:
  assumes "Pos (ws ps) \<le> length (Input (ws ps))"
    and "DecodeRuneInString (drop (Pos (ws ps)) (Input (ws ps))) = (opener, w)"
    and "isValid opener = (True, closer)"
    and "stringImpl ((ws ps)\<lparr>Pos := Pos (ws ps) + w\<rparr>) (with_Start node (Pos (ws ps) + w))
           closer escapes = (ps1, child1, True)"
  shows "CustomRegexpReplaceLiteral pt ws isValid escapes ps node =
           Some (secondSegment pt ps1 node child1 opener closer)"
  using assms by (simp add: CustomRegexpReplaceLiteral_def Let_def)

lemma secondSegment_asymmetric:
  assumes "closer \<noteq> opener"
    and "DecodeRuneInString (drop (Pos ps1) (Input ps1)) = (opener2, w2)"
  shows "secondSegment pt ps1 node child1 opener closer =
           (if \<not> fst (IsValidRegexpDelimiter pt opener2)
            then (ErrorHere (ps1\<lparr>Pos := Pos ps1 + w2\<rparr>) ''regexp delimiter'', node, False)
            else replacementSegment (ps1\<lparr>Pos := Pos ps1 + w2\<rparr>) node child1
                   (snd (IsValidRegexpDelimiter pt opener2)))"
  using assms by (simp add: secondSegment_def Let_def split: prod.splits)

section \<open>The number literal: evaluation and failure\<close>

lemma scanNumber_examples:
  "scanNumber ''42'' 0 = (2, False)" "scanNumber ''-3.14'' 0 = (5, True)"
  "scanNumber ''1e10'' 0 = (4, True)" "scanNumber ''+5'' 0 = (2, False)"
  "scanNumber ''.'' 0 = (1, True)" "scanNumber ''-'' 0 = (1, False)"
  by code_simp+

lemma ParseInt_examples:
  "ParseInt ''42'' = (42, True)" "ParseInt ''+5'' = (5, True)" "ParseInt ''-'' = (0, False)"
  by (simp_all add: ParseInt_def isDigit_def)

lemma ParseFloat_examples:
  "ParseFloat ''.'' = (Float64 0, False)"
  "ParseFloat ''-3.14'' = (Float64 (- 314 / 100), True)"
  "ParseFloat ''1e10'' = (Float64 (10 ^ 10), True)"
  by (simp_all add: ParseFloat_def isDigit_def decimalValue_def)

lemma takeWhile_no_digit: "\<forall>c\<in>set s. \<not> isDigit c \<Longrightarrow> takeWhile isDigit s = []"
  by (cases s) simp_all

lemma dropWhile_no_digit: "\<forall>c\<in>set s. \<not> isDigit c \<Longrightarrow> dropWhile isDigit s = s"
  by (cases s) simp_all

lemma ParseFloat_no_digit:
  assumes "\<forall>c\<in>set s. \<not> isDigit c"
  shows "ParseFloat s = (Float64 0, False)"
proof -
  define s1 where "s1 = (if s \<noteq> [] \<and> (hd s = CHR ''+'' \<or> hd s = CHR ''-'') then tl s else s)"
  have "set s1 \<subseteq> set s" by (cases s) (auto simp add: s1_def)
  then have n1: "\<forall>c\<in>set s1. \<not> isDigit c" using assms by blast
  have ip: "takeWhile isDigit s1 = []" and r1: "dropWhile isDigit s1 = s1"
    using n1 by (simp_all add: takeWhile_no_digit dropWhile_no_digit)
  have "set (tl s1) \<subseteq> set s1" by (cases s1) auto
  then have "\<forall>c\<in>set (tl s1). \<not> isDigit c" using n1 by blast
  then have fp: "takeWhile isDigit (tl s1) = []" by (rule takeWhile_no_digit)
  show ?thesis
    unfolding ParseFloat_def s1_def [symmetric] Let_def ip r1 fp by simp
qed

lemma ParseInt_no_digit:
  assumes "\<forall>c\<in>set s. \<not> isDigit c"
  shows "ParseInt s = (0, False)"
proof (cases s)
  case Nil
  then show ?thesis by (simp add: ParseInt_def)
next
  case (Cons c cs)
  define body where "body = (if hd s = CHR ''+'' \<or> hd s = CHR ''-'' then tl s else s)"
  have "set body \<subseteq> set s" using Cons by (auto simp add: body_def)
  then have "\<forall>c\<in>set body. \<not> isDigit c" using assms by blast
  then have "body = [] \<or> \<not> list_all isDigit body" by (cases body) auto
  then show ?thesis using Cons unfolding ParseInt_def body_def [symmetric] Let_def by auto
qed

lemma NumberLit_fails:
  assumes "scanNumber (Input (ws ps)) (Pos (ws ps)) = (e, fl)"
    and "e = Pos (ws ps) \<or> (fl \<and> \<not> snd (ParseFloat (slice (Input (ws ps)) (Pos (ws ps)) e))) \<or>
         (\<not> fl \<and> \<not> snd (ParseInt (slice (Input (ws ps)) (Pos (ws ps)) e)))"
  shows "\<exists>node'. NumberLit ws ps node = (ErrorHere (ws ps) ''number'', node', False)"
  using assms by (auto simp add: NumberLit_def Let_def split: prod.splits)

section \<open>Claims\<close>

text \<open>
  C1. Whenever \<^verbatim>\<open>stringImpl\<close> finds its unescaped closer (returns true) and no byte of
  the source between the start of the segment and the new cursor is a backslash, the node's
  token is exactly the source slice from the start of the segment to the closer (the
  buffer is never allocated), nothing else of the node changes, and the cursor is set to
  the position just past the closer, whose width is \<open>w\<close>. The bytes of the closer
  itself are never a backslash, so the hypothesis speaks of the text between the
  delimiters.
\<close>

theorem stringImpl_zero_copy:
  assumes "stringImpl ps node closer escapes = (ps', node', True)"
    and "CHR 0x5C \<notin> set (slice (Input ps) (Start node) (Pos ps'))"
  shows "\<exists>e w. Start node \<le> e \<and> e < length (Input ps) \<and>
           DecodeRuneInString (drop e (Input ps)) = (closer, w) \<and> 0 < w \<and>
           node' = Result (slice (Input ps) (Start node) e) (Child node) (Payload node)
                     (Start node) (End node) \<and>
           ps' = ps\<lparr>Pos := e + w\<rparr>"
proof -
  from assms(1) obtain e w where c: "closes_at ps node closer (Start node) True ps' node' e w"
    using stringLoop_success_shape [of ps node closer escapes "Start node" None ps' node']
    by (auto simp add: stringImpl_def)
  then have e: "Start node \<le> e" "e < length (Input ps)"
      "DecodeRuneInString (drop e (Input ps)) = (closer, w)" "0 < w" "ps' = ps\<lparr>Pos := e + w\<rparr>"
    and tok: "\<exists>tok. node' = Result tok (Child node) (Payload node) (Start node) (End node)"
    and raw: "(\<forall>i. Start node \<le> i \<and> i < e \<longrightarrow> Input ps ! i \<noteq> CHR 0x5C) \<Longrightarrow>
        Token node' = slice (Input ps) (Start node) e"
    by (simp_all add: closes_at_def)
  have "Input ps ! i \<noteq> CHR 0x5C" if "Start node \<le> i" "i < e" for i
  proof -
    have "Input ps ! i \<in> set (slice (Input ps) (Start node) (Pos ps'))"
      using that e by (intro slice_nth_mem) simp_all
    with assms(2) show ?thesis by metis
  qed
  then have "Token node' = slice (Input ps) (Start node) e" using raw by blast
  with tok have "node' = Result (slice (Input ps) (Start node) e) (Child node) (Payload node)
                     (Start node) (End node)" by auto
  with e show ?thesis by blast
qed

theorem stringImpl_zero_copy_witness:
  "stringImpl \<lparr>Input = CHR 0x22 # ''abc'' @ [CHR 0x22] @ ''d'', Pos = 0, Error = \<lparr>expected = [], pos = 0\<rparr>\<rparr>
      (Result [] [] None 1 0) 0x22 Escapes
    = (\<lparr>Input = CHR 0x22 # ''abc'' @ [CHR 0x22] @ ''d'', Pos = 5, Error = \<lparr>expected = [], pos = 0\<rparr>\<rparr>,
       Result ''abc'' [] None 1 0, True) \<and>
   CHR 0x5C \<notin> set (slice (CHR 0x22 # ''abc'' @ [CHR 0x22] @ ''d'') 1 5) \<and>
   (\<exists>e w. 1 \<le> e \<and> e < length (CHR 0x22 # ''abc'' @ [CHR 0x22] @ ''d'') \<and>
      DecodeRuneInString (drop e (CHR 0x22 # ''abc'' @ [CHR 0x22] @ ''d'')) = (0x22, w) \<and> 0 < w \<and>
      Result ''abc'' [] None 1 0 =
        Result (slice (CHR 0x22 # ''abc'' @ [CHR 0x22] @ ''d'') 1 e) [] None 1 0 \<and>
      e + w = 5)"
proof -
  let ?ps = "\<lparr>Input = CHR 0x22 # ''abc'' @ [CHR 0x22] @ ''d'', Pos = 0, Error = \<lparr>expected = [], pos = 0\<rparr>\<rparr>"
  let ?ps' = "\<lparr>Input = CHR 0x22 # ''abc'' @ [CHR 0x22] @ ''d'', Pos = 5, Error = \<lparr>expected = [], pos = 0\<rparr>\<rparr>"
  have run: "stringImpl ?ps (Result [] [] None 1 0) 0x22 Escapes = (?ps', Result ''abc'' [] None 1 0, True)"
    by (simp add: scan_eval)
  have nb: "CHR 0x5C \<notin> set (slice (Input ?ps) (Start (Result [] [] None 1 0)) (Pos ?ps'))"
    by (simp add: slice_def)
  from stringImpl_zero_copy [OF run nb] run nb show ?thesis by simp
qed

text \<open>
  C2. At a backslash that is not the last code point and is not followed by \<open>u\<close>, the
  scanner appends to the buffer (allocated from the source slice when there is none yet),
  in this order of cases: the closer itself when the following code point is the closer;
  otherwise the mapped character when the following code point is in the escape table;
  otherwise the backslash and the following code point. In each case the scan goes on
  after the two code points, so it does not end at an escaped closer and no escape is
  rejected: if it ends successfully, the cursor is beyond them. The default escape table
  maps a, b, f, n, r, t, v to bell, backspace, form feed, newline, carriage return, tab
  and vertical tab, and nothing else.
\<close>

theorem escape_case_order:
  assumes "e < length (Input ps)"
    and "DecodeRuneInString (drop e (Input ps)) = (0x5C, w)"
    and "e + w < length (Input ps)"
    and "DecodeRuneInString (drop (e + w) (Input ps)) = (c, s)"
    and "c \<noteq> 0x75"
  shows "stringLoop ps node closer escapes e buf =
           stringLoop ps node closer escapes (e + w + s)
             (Some ((case buf of None \<Rightarrow> slice (Input ps) (Start node) e | Some b \<Rightarrow> b) @
                    (if c = closer then EncodeRune closer
                     else case escapes c of
                            Some m \<Rightarrow> EncodeRune m
                          | None \<Rightarrow> EncodeRune 0x5C @ EncodeRune c))) \<and>
         (\<forall>ps' node'. stringLoop ps node closer escapes e buf = (ps', node', True) \<longrightarrow>
            e + w + s < Pos ps') \<and>
         Escapes 0x61 = Some 0x07 \<and> Escapes 0x62 = Some 0x08 \<and> Escapes 0x66 = Some 0x0C \<and>
         Escapes 0x6E = Some 0x0A \<and> Escapes 0x72 = Some 0x0D \<and> Escapes 0x74 = Some 0x09 \<and>
         Escapes 0x76 = Some 0x0B \<and>
         dom Escapes = {0x61, 0x62, 0x66, 0x6E, 0x72, 0x74, 0x76}"
proof -
  let ?b = "Some ((case buf of None \<Rightarrow> slice (Input ps) (Start node) e | Some b \<Rightarrow> b) @
                    (if c = closer then EncodeRune closer
                     else case escapes c of
                            Some m \<Rightarrow> EncodeRune m
                          | None \<Rightarrow> EncodeRune 0x5C @ EncodeRune c))"
  have eq: "stringLoop ps node closer escapes e buf = stringLoop ps node closer escapes (e + w + s) ?b"
    using stringLoop_escape [OF assms, of node closer escapes buf]
    by (simp add: Let_def WriteRune_def split: option.splits)
  have "e + w + s < Pos ps'"
    if "stringLoop ps node closer escapes e buf = (ps', node', True)" for ps' node'
  proof -
    from that eq have "stringLoop ps node closer escapes (e + w + s) ?b = (ps', node', True)"
      by simp
    from stringLoop_success_shape [OF this] show ?thesis
      by (auto simp add: closes_at_def)
  qed
  moreover have "dom Escapes = {0x61, 0x62, 0x66, 0x6E, 0x72, 0x74, 0x76}"
    by (auto simp add: Escapes_def dom_def split: if_splits)
  ultimately show ?thesis using eq by (simp add: Escapes_def)
qed

theorem escape_case_order_witness:
  "stringLoop \<lparr>Input = [CHR 0x22, CHR 0x5C, CHR 0x22, CHR 0x5C] @ ''n'' @ [CHR 0x5C] @ ''q'' @ [CHR 0x22],
               Pos = 0, Error = \<lparr>expected = [], pos = 0\<rparr>\<rparr> (Result [] [] None 1 0) 0x22 Escapes 1 None =
   stringLoop \<lparr>Input = [CHR 0x22, CHR 0x5C, CHR 0x22, CHR 0x5C] @ ''n'' @ [CHR 0x5C] @ ''q'' @ [CHR 0x22],
               Pos = 0, Error = \<lparr>expected = [], pos = 0\<rparr>\<rparr> (Result [] [] None 1 0) 0x22 Escapes 3
               (Some [CHR 0x22]) \<and>
   stringLoop \<lparr>Input = [CHR 0x22, CHR 0x5C, CHR 0x22, CHR 0x5C] @ ''n'' @ [CHR 0x5C] @ ''q'' @ [CHR 0x22],
               Pos = 0, Error = \<lparr>expected = [], pos = 0\<rparr>\<rparr> (Result [] [] None 1 0) 0x22 Escapes 3
               (Some [CHR 0x22]) =
   (\<lparr>Input = [CHR 0x22, CHR 0x5C, CHR 0x22, CHR 0x5C] @ ''n'' @ [CHR 0x5C] @ ''q'' @ [CHR 0x22],
      Pos = 8, Error = \<lparr>expected = [], pos = 0\<rparr>\<rparr>,
    Result [CHR 0x22, CHR 0x0A, CHR 0x5C, CHR ''q''] [] None 1 0, True)"
proof -
  let ?ps = "\<lparr>Input = [CHR 0x22, CHR 0x5C, CHR 0x22, CHR 0x5C] @ ''n'' @ [CHR 0x5C] @ ''q'' @ [CHR 0x22],
               Pos = 0, Error = \<lparr>expected = [], pos = 0\<rparr>\<rparr>"
  have h1: "1 < length (Input ?ps)" by simp
  have h2: "DecodeRuneInString (drop 1 (Input ?ps)) = (0x5C, 1)" by simp
  have h3: "1 + 1 < length (Input ?ps)" by simp
  have h4: "DecodeRuneInString (drop (1 + 1) (Input ?ps)) = (0x22, 1)" by simp
  have h5: "(0x22 :: rune) \<noteq> 0x75" by simp
  have r: "stringLoop ?ps (Result [] [] None 1 0) 0x22 Escapes 3 (Some [CHR 0x22]) =
     (?ps\<lparr>Pos := 8\<rparr>, Result [CHR 0x22, CHR 0x0A, CHR 0x5C, CHR ''q''] [] None 1 0, True)"
    by (simp add: scan_eval)
  have b: "(case None of None \<Rightarrow> slice (Input ?ps) (Start (Result [] [] None 1 0)) 1 | Some b \<Rightarrow> b) @
      (if (0x22 :: rune) = 0x22 then EncodeRune 0x22
       else case Escapes 0x22 of Some m \<Rightarrow> EncodeRune m | None \<Rightarrow> EncodeRune 0x5C @ EncodeRune 0x22) =
      [CHR 0x22]"
    by (simp add: slice_def EncodeRune_def char_of_def)
  have n: "(1 :: nat) + 1 + 1 = 3" by simp
  have "stringLoop ?ps (Result [] [] None 1 0) 0x22 Escapes 1 None =
      stringLoop ?ps (Result [] [] None 1 0) 0x22 Escapes 3 (Some [CHR 0x22])"
    using escape_case_order [OF h1 h2 h3 h4 h5, of "Result [] [] None 1 0" "0x22" Escapes None,
        THEN conjunct1]
    unfolding b n .
  with r show ?thesis by simp
qed

text \<open>
  C3, as amended. A \<^verbatim>\<open>\u\<close> escape starts at the backslash at offset \<open>e\<close>; its
  digits start at \<open>e + 2\<close>. When fewer than five bytes follow the \<open>u\<close> the scan fails
  with the expectation \<^verbatim>\<open>[a-f0-9]{4}\<close>; when at least five bytes follow and one of
  the first four is not a hex digit it fails with the expectation \<^verbatim>\<open>[a-f0-9]\<close>; in
  both cases the error is written at offset \<open>e + 2\<close>, the first of the four digit
  positions, whichever digit offends, and the cursor and the node are unchanged. When at
  least five bytes follow and the first four are hex digits, the code point they denote,
  at most U+FFFF, is appended to the buffer in UTF-8 (a surrogate is written as U+FFFD by
  the encoder) and the scan goes on after the four digits.
\<close>

theorem unicode_escape:
  assumes "e < length (Input ps)"
    and "DecodeRuneInString (drop e (Input ps)) = (0x5C, w)"
    and "e + w < length (Input ps)"
    and "DecodeRuneInString (drop (e + w) (Input ps)) = (0x75, s)"
  shows "e + w + s = e + 2 \<and>
    (length (Input ps) \<le> e + 2 + 4 \<longrightarrow>
       stringLoop ps node closer escapes e buf =
         (ps\<lparr>Error := \<lparr>expected = ''[a-f0-9]{4}'', pos = e + 2\<rparr>\<rparr>, node, False)) \<and>
    (e + 2 + 4 < length (Input ps) \<and> \<not> list_all isHexDigit (slice (Input ps) (e + 2) (e + 2 + 4)) \<longrightarrow>
       stringLoop ps node closer escapes e buf =
         (ps\<lparr>Error := \<lparr>expected = ''[a-f0-9]'', pos = e + 2\<rparr>\<rparr>, node, False)) \<and>
    (e + 2 + 4 < length (Input ps) \<and> list_all isHexDigit (slice (Input ps) (e + 2) (e + 2 + 4)) \<longrightarrow>
       0 \<le> hexValue (slice (Input ps) (e + 2) (e + 2 + 4)) 0 \<and>
       hexValue (slice (Input ps) (e + 2) (e + 2 + 4)) 0 \<le> 0xFFFF \<and>
       stringLoop ps node closer escapes e buf =
         stringLoop ps node closer escapes (e + 2 + 4)
           (Some ((case buf of None \<Rightarrow> slice (Input ps) (Start node) e | Some b \<Rightarrow> b) @
                  EncodeRune (hexValue (slice (Input ps) (e + 2) (e + 2 + 4)) 0))))"
proof -
  have w: "w = 1" using DecodeRuneInString_ascii [OF assms(2)] by auto
  have s: "s = 1" using DecodeRuneInString_ascii [OF assms(4)] by auto
  have p: "e + w + s = e + 2" using w s by simp
  note a = assms [unfolded w s]
  let ?d = "slice (Input ps) (e + 2) (e + 2 + 4)"
  have short: "stringLoop ps node closer escapes e buf =
         (ps\<lparr>Error := \<lparr>expected = ''[a-f0-9]{4}'', pos = e + 2\<rparr>\<rparr>, node, False)"
    if "length (Input ps) \<le> e + 2 + 4"
    using stringLoop_hex_short [OF assms, of node closer escapes buf] that
    by (simp add: hex4_label_def w s)
  have len: "length ?d = 4" if "e + 2 + 4 < length (Input ps)"
    using that by (simp add: slice_def)
  have bad: "stringLoop ps node closer escapes e buf =
         (ps\<lparr>Error := \<lparr>expected = ''[a-f0-9]'', pos = e + 2\<rparr>\<rparr>, node, False)"
    if "e + 2 + 4 < length (Input ps)" "\<not> list_all isHexDigit ?d"
  proof -
    have "unhex (slice (Input ps) (e + w + s) (e + w + s + 4)) = (0, False)"
      using unhex_four(1) [OF len [OF that(1)]] that(2) by (simp add: w s)
    from stringLoop_hex_bad [OF assms _ this, of node closer escapes buf] that(1)
    show ?thesis by (simp add: hex_label_def w s)
  qed
  have good: "0 \<le> hexValue ?d 0 \<and> hexValue ?d 0 \<le> 0xFFFF \<and>
       stringLoop ps node closer escapes e buf =
         stringLoop ps node closer escapes (e + 2 + 4)
           (Some ((case buf of None \<Rightarrow> slice (Input ps) (Start node) e | Some b \<Rightarrow> b) @
                  EncodeRune (hexValue ?d 0)))"
    if "e + 2 + 4 < length (Input ps)" "list_all isHexDigit ?d"
  proof -
    have "unhex (slice (Input ps) (e + w + s) (e + w + s + 4)) = (hexValue ?d 0, True)"
      using unhex_four(1) [OF len [OF that(1)]] that(2) by (simp add: w s)
    from stringLoop_hex_ok [OF assms _ this, of node closer escapes buf] that(1)
    have "stringLoop ps node closer escapes e buf =
         stringLoop ps node closer escapes (e + 2 + 4)
           (Some ((case buf of None \<Rightarrow> slice (Input ps) (Start node) e | Some b \<Rightarrow> b) @
                  EncodeRune (hexValue ?d 0)))"
      by (simp add: WriteRune_def w s)
    with unhex_four(2) [OF len [OF that(1)] that(2)] show ?thesis by simp
  qed
  from p short bad good show ?thesis by blast
qed


theorem unicode_escape_witness:
  "DecodeRuneInString (drop 1 ([CHR 0x22, CHR 0x5C] @ ''u0041'' @ [CHR 0x22])) = (0x5C, 1) \<and>
   DecodeRuneInString (drop (1 + 1) ([CHR 0x22, CHR 0x5C] @ ''u0041'' @ [CHR 0x22])) = (0x75, 1) \<and>
   list_all isHexDigit (slice ([CHR 0x22, CHR 0x5C] @ ''u0041'' @ [CHR 0x22]) 3 7) \<and>
   stringLoop \<lparr>Input = [CHR 0x22, CHR 0x5C] @ ''u0041'' @ [CHR 0x22], Pos = 0,
                Error = \<lparr>expected = [], pos = 0\<rparr>\<rparr> (Result [] [] None 1 0) 0x22 Escapes 1 None =
     stringLoop \<lparr>Input = [CHR 0x22, CHR 0x5C] @ ''u0041'' @ [CHR 0x22], Pos = 0,
                  Error = \<lparr>expected = [], pos = 0\<rparr>\<rparr> (Result [] [] None 1 0) 0x22 Escapes 7
       (Some ''A'') \<and>
   \<not> list_all isHexDigit (slice ([CHR 0x22, CHR 0x5C] @ ''u12G4'' @ [CHR 0x22]) 3 7) \<and>
   stringLoop \<lparr>Input = [CHR 0x22, CHR 0x5C] @ ''u12G4'' @ [CHR 0x22], Pos = 0,
                Error = \<lparr>expected = [], pos = 0\<rparr>\<rparr> (Result [] [] None 1 0) 0x22 Escapes 1 None =
     (\<lparr>Input = [CHR 0x22, CHR 0x5C] @ ''u12G4'' @ [CHR 0x22], Pos = 0,
        Error = \<lparr>expected = ''[a-f0-9]'', pos = 3\<rparr>\<rparr>, Result [] [] None 1 0, False) \<and>
   stringLoop \<lparr>Input = [CHR 0x22, CHR 0x5C] @ ''u12'' @ [CHR 0x22], Pos = 0,
                Error = \<lparr>expected = [], pos = 0\<rparr>\<rparr> (Result [] [] None 1 0) 0x22 Escapes 1 None =
     (\<lparr>Input = [CHR 0x22, CHR 0x5C] @ ''u12'' @ [CHR 0x22], Pos = 0,
        Error = \<lparr>expected = ''[a-f0-9]{4}'', pos = 3\<rparr>\<rparr>, Result [] [] None 1 0, False)"
proof -
  let ?g = "\<lparr>Input = [CHR 0x22, CHR 0x5C] @ ''u0041'' @ [CHR 0x22], Pos = 0,
             Error = \<lparr>expected = [], pos = 0\<rparr>\<rparr>"
  let ?b = "\<lparr>Input = [CHR 0x22, CHR 0x5C] @ ''u12G4'' @ [CHR 0x22], Pos = 0,
             Error = \<lparr>expected = [], pos = 0\<rparr>\<rparr>"
  let ?s = "\<lparr>Input = [CHR 0x22, CHR 0x5C] @ ''u12'' @ [CHR 0x22], Pos = 0,
             Error = \<lparr>expected = [], pos = 0\<rparr>\<rparr>"
  let ?n = "Result [] [] None 1 0"
  have g: "1 < length (Input ?g)" "DecodeRuneInString (drop 1 (Input ?g)) = (0x5C, 1)"
    "1 + 1 < length (Input ?g)" "DecodeRuneInString (drop (1 + 1) (Input ?g)) = (0x75, 1)"
    by simp_all
  have gd: "1 + 2 + 4 < length (Input ?g) \<and> list_all isHexDigit (slice (Input ?g) (1 + 2) (1 + 2 + 4))"
    by (simp add: slice_def isHexDigit_def)
  have gv: "(case None of None \<Rightarrow> slice (Input ?g) (Start ?n) 1 | Some b \<Rightarrow> b) @
      EncodeRune (hexValue (slice (Input ?g) (1 + 2) (1 + 2 + 4)) 0) = ''A''"
    by (simp add: slice_def hexDigitValue_def EncodeRune_def char_of_def)
  have "stringLoop ?g ?n 0x22 Escapes 1 None = stringLoop ?g ?n 0x22 Escapes (1 + 2 + 4)
      (Some ((case None of None \<Rightarrow> slice (Input ?g) (Start ?n) 1 | Some b \<Rightarrow> b) @
      EncodeRune (hexValue (slice (Input ?g) (1 + 2) (1 + 2 + 4)) 0)))"
    using unicode_escape [OF g, of ?n "0x22" Escapes None] gd by blast
  then have r1: "stringLoop ?g ?n 0x22 Escapes 1 None = stringLoop ?g ?n 0x22 Escapes 7 (Some ''A'')"
    unfolding gv by simp
  have b: "1 < length (Input ?b)" "DecodeRuneInString (drop 1 (Input ?b)) = (0x5C, 1)"
    "1 + 1 < length (Input ?b)" "DecodeRuneInString (drop (1 + 1) (Input ?b)) = (0x75, 1)"
    by simp_all
  have bd: "1 + 2 + 4 < length (Input ?b) \<and> \<not> list_all isHexDigit (slice (Input ?b) (1 + 2) (1 + 2 + 4))"
    by (simp add: slice_def isHexDigit_def)
  have "stringLoop ?b ?n 0x22 Escapes 1 None =
      (?b\<lparr>Error := \<lparr>expected = ''[a-f0-9]'', pos = 1 + 2\<rparr>\<rparr>, ?n, False)"
    using unicode_escape [OF b, of ?n "0x22" Escapes None] bd by blast
  then have r2: "stringLoop ?b ?n 0x22 Escapes 1 None =
      (\<lparr>Input = [CHR 0x22, CHR 0x5C] @ ''u12G4'' @ [CHR 0x22], Pos = 0,
        Error = \<lparr>expected = ''[a-f0-9]'', pos = 3\<rparr>\<rparr>, ?n, False)"
    by simp
  have s: "1 < length (Input ?s)" "DecodeRuneInString (drop 1 (Input ?s)) = (0x5C, 1)"
    "1 + 1 < length (Input ?s)" "DecodeRuneInString (drop (1 + 1) (Input ?s)) = (0x75, 1)"
    by simp_all
  have sd: "length (Input ?s) \<le> 1 + 2 + 4" by simp
  have "stringLoop ?s ?n 0x22 Escapes 1 None =
      (?s\<lparr>Error := \<lparr>expected = ''[a-f0-9]{4}'', pos = 1 + 2\<rparr>\<rparr>, ?n, False)"
    using unicode_escape [OF s, of ?n "0x22" Escapes None] sd by blast
  then have r3: "stringLoop ?s ?n 0x22 Escapes 1 None =
      (\<lparr>Input = [CHR 0x22, CHR 0x5C] @ ''u12'' @ [CHR 0x22], Pos = 0,
        Error = \<lparr>expected = ''[a-f0-9]{4}'', pos = 3\<rparr>\<rparr>, ?n, False)"
    by simp
  have c1: "DecodeRuneInString (drop 1 ([CHR 0x22, CHR 0x5C] @ ''u0041'' @ [CHR 0x22])) = (0x5C, 1)"
    and c2: "DecodeRuneInString (drop (1 + 1) ([CHR 0x22, CHR 0x5C] @ ''u0041'' @ [CHR 0x22])) = (0x75, 1)"
    and c3: "list_all isHexDigit (slice ([CHR 0x22, CHR 0x5C] @ ''u0041'' @ [CHR 0x22]) 3 7)"
    and c4: "\<not> list_all isHexDigit (slice ([CHR 0x22, CHR 0x5C] @ ''u12G4'' @ [CHR 0x22]) 3 7)"
    by (simp_all add: slice_def isHexDigit_def)
  from c1 c2 c3 r1 c4 r2 r3 show ?thesis by blast
qed


text \<open>
  The error position of C3 as the specification states it fails on the literal
  \<^verbatim>\<open>"\u12G4"\<close>: the first offending character \<open>G\<close> is at offset 5, the error is
  recorded at offset 3.
\<close>

theorem unicode_escape_counterexample:
  "stringImpl \<lparr>Input = [CHR 0x22, CHR 0x5C] @ ''u12G4'' @ [CHR 0x22], Pos = 0,
                Error = \<lparr>expected = [], pos = 0\<rparr>\<rparr> (Result [] [] None 1 0) 0x22 Escapes =
     (\<lparr>Input = [CHR 0x22, CHR 0x5C] @ ''u12G4'' @ [CHR 0x22], Pos = 0,
        Error = \<lparr>expected = ''[a-f0-9]'', pos = 3\<rparr>\<rparr>, Result [] [] None 1 0, False) \<and>
   firstOffending ([CHR 0x22, CHR 0x5C] @ ''u12G4'' @ [CHR 0x22]) 3 = 5"
  by (simp add: scan_eval firstOffending_def isHexDigit_def)

text \<open>
  C4. With no whitespace to skip, \<^verbatim>\<open>NumberLit\<close> parses \<open>42\<close> to the integer 42,
  \<open>-3.14\<close> to the float with decimal value -3.14, \<open>1e10\<close> to the float with value
  \<open>10^10\<close> and \<open>+5\<close> to the integer 5, and sets the node's range and the cursor to
  the consumed bytes. On \<open>.\<close> and on \<open>-\<close> alone it fails with the expectation
  \<open>number\<close> at offset 0 and the cursor still at 0. In general, whenever the scan consumes
  nothing, or consumes no digit, or the numeric parse of the consumed bytes fails, the
  parser fails, reports \<open>number\<close> through the sink at the cursor, and leaves the cursor
  where whitespace skipping left it.
\<close>

theorem NumberLit_examples:
  "NumberLit NoWhitespace \<lparr>Input = ''42'', Pos = 0, Error = err\<rparr> node =
     (\<lparr>Input = ''42'', Pos = 2, Error = err\<rparr>,
      Result (Token node) (Child node) (Some (Int64 42)) 0 2, True) \<and>
   NumberLit NoWhitespace \<lparr>Input = ''-3.14'', Pos = 0, Error = err\<rparr> node =
     (\<lparr>Input = ''-3.14'', Pos = 5, Error = err\<rparr>,
      Result (Token node) (Child node) (Some (Float64 (- 314 / 100))) 0 5, True) \<and>
   NumberLit NoWhitespace \<lparr>Input = ''1e10'', Pos = 0, Error = err\<rparr> node =
     (\<lparr>Input = ''1e10'', Pos = 4, Error = err\<rparr>,
      Result (Token node) (Child node) (Some (Float64 (10 ^ 10))) 0 4, True) \<and>
   NumberLit NoWhitespace \<lparr>Input = ''+5'', Pos = 0, Error = err\<rparr> node =
     (\<lparr>Input = ''+5'', Pos = 2, Error = err\<rparr>,
      Result (Token node) (Child node) (Some (Int64 5)) 0 2, True) \<and>
   NumberLit NoWhitespace \<lparr>Input = ''.'', Pos = 0, Error = \<lparr>expected = [], pos = 0\<rparr>\<rparr> node =
     (\<lparr>Input = ''.'', Pos = 0, Error = \<lparr>expected = ''number'', pos = 0\<rparr>\<rparr>,
      with_Payload node (Float64 0), False) \<and>
   NumberLit NoWhitespace \<lparr>Input = ''-'', Pos = 0, Error = \<lparr>expected = [], pos = 0\<rparr>\<rparr> node =
     (\<lparr>Input = ''-'', Pos = 0, Error = \<lparr>expected = ''number'', pos = 0\<rparr>\<rparr>,
      with_Payload node (Int64 0), False) \<and>
   (\<forall>ws ps e fl.
      scanNumber (Input (ws ps)) (Pos (ws ps)) = (e, fl) \<and>
      (e = Pos (ws ps) \<or>
       (\<forall>c\<in>set (slice (Input (ws ps)) (Pos (ws ps)) e). \<not> isDigit c) \<or>
       (fl \<and> \<not> snd (ParseFloat (slice (Input (ws ps)) (Pos (ws ps)) e))) \<or>
       (\<not> fl \<and> \<not> snd (ParseInt (slice (Input (ws ps)) (Pos (ws ps)) e)))) \<longrightarrow>
      (\<exists>node'. NumberLit ws ps node = (ErrorHere (ws ps) ''number'', node', False)) \<and>
      Pos (ErrorHere (ws ps) ''number'') = Pos (ws ps) \<and>
      (pos (Error (ws ps)) \<le> Pos (ws ps) \<longrightarrow>
         Error (ErrorHere (ws ps) ''number'') = \<lparr>expected = ''number'', pos = Pos (ws ps)\<rparr>))"
proof -
  note ev = NumberLit_def NoWhitespace_def scanNumber_examples ParseInt_examples
    ParseFloat_examples slice_def with_Payload_def with_Start_def with_End_def ErrorHere_def
  have a: "NumberLit NoWhitespace \<lparr>Input = ''42'', Pos = 0, Error = err\<rparr> node =
     (\<lparr>Input = ''42'', Pos = 2, Error = err\<rparr>,
      Result (Token node) (Child node) (Some (Int64 42)) 0 2, True)"
    by (simp add: ev)
  have b: "NumberLit NoWhitespace \<lparr>Input = ''-3.14'', Pos = 0, Error = err\<rparr> node =
     (\<lparr>Input = ''-3.14'', Pos = 5, Error = err\<rparr>,
      Result (Token node) (Child node) (Some (Float64 (- 314 / 100))) 0 5, True)"
    by (simp add: ev)
  have c: "NumberLit NoWhitespace \<lparr>Input = ''1e10'', Pos = 0, Error = err\<rparr> node =
     (\<lparr>Input = ''1e10'', Pos = 4, Error = err\<rparr>,
      Result (Token node) (Child node) (Some (Float64 (10 ^ 10))) 0 4, True)"
    by (simp add: ev)
  have d: "NumberLit NoWhitespace \<lparr>Input = ''+5'', Pos = 0, Error = err\<rparr> node =
     (\<lparr>Input = ''+5'', Pos = 2, Error = err\<rparr>,
      Result (Token node) (Child node) (Some (Int64 5)) 0 2, True)"
    by (simp add: ev)
  have e: "NumberLit NoWhitespace \<lparr>Input = ''.'', Pos = 0, Error = \<lparr>expected = [], pos = 0\<rparr>\<rparr> node =
     (\<lparr>Input = ''.'', Pos = 0, Error = \<lparr>expected = ''number'', pos = 0\<rparr>\<rparr>,
      with_Payload node (Float64 0), False)"
    by (simp add: ev)
  have f: "NumberLit NoWhitespace \<lparr>Input = ''-'', Pos = 0, Error = \<lparr>expected = [], pos = 0\<rparr>\<rparr> node =
     (\<lparr>Input = ''-'', Pos = 0, Error = \<lparr>expected = ''number'', pos = 0\<rparr>\<rparr>,
      with_Payload node (Int64 0), False)"
    by (simp add: ev)
  have g: "(\<exists>node'. NumberLit ws ps node = (ErrorHere (ws ps) ''number'', node', False)) \<and>
      Pos (ErrorHere (ws ps) ''number'') = Pos (ws ps) \<and>
      (pos (Error (ws ps)) \<le> Pos (ws ps) \<longrightarrow>
         Error (ErrorHere (ws ps) ''number'') = \<lparr>expected = ''number'', pos = Pos (ws ps)\<rparr>)"
    if s: "scanNumber (Input (ws ps)) (Pos (ws ps)) = (e, fl)"
      and h: "e = Pos (ws ps) \<or>
       (\<forall>c\<in>set (slice (Input (ws ps)) (Pos (ws ps)) e). \<not> isDigit c) \<or>
       (fl \<and> \<not> snd (ParseFloat (slice (Input (ws ps)) (Pos (ws ps)) e))) \<or>
       (\<not> fl \<and> \<not> snd (ParseInt (slice (Input (ws ps)) (Pos (ws ps)) e)))"
    for ws ps e fl
  proof -
    have "e = Pos (ws ps) \<or> (fl \<and> \<not> snd (ParseFloat (slice (Input (ws ps)) (Pos (ws ps)) e))) \<or>
         (\<not> fl \<and> \<not> snd (ParseInt (slice (Input (ws ps)) (Pos (ws ps)) e)))"
      using h ParseFloat_no_digit [of "slice (Input (ws ps)) (Pos (ws ps)) e"]
        ParseInt_no_digit [of "slice (Input (ws ps)) (Pos (ws ps)) e"]
      by (cases fl) auto
    from NumberLit_fails [of ws ps e fl node, OF s this] show ?thesis
      by (simp add: ErrorHere_simps)
  qed
  from a b c d e f g show ?thesis by blast
qed

theorem NumberLit_examples_witness:
  "scanNumber ''-'' 0 = (1, False) \<and> slice ''-'' 0 1 = ''-'' \<and> \<not> isDigit (CHR ''-'') \<and>
   (\<exists>node'. NumberLit NoWhitespace \<lparr>Input = ''-'', Pos = 0, Error = \<lparr>expected = [], pos = 0\<rparr>\<rparr>
              (Result [] [] None 0 0) =
            (\<lparr>Input = ''-'', Pos = 0, Error = \<lparr>expected = ''number'', pos = 0\<rparr>\<rparr>, node', False))"
proof -
  let ?ps = "\<lparr>Input = ''-'', Pos = 0, Error = \<lparr>expected = [], pos = 0\<rparr>\<rparr>"
  have s: "scanNumber (Input (NoWhitespace ?ps)) (Pos (NoWhitespace ?ps)) = (1, False)"
    by (simp add: NoWhitespace_def scanNumber_examples)
  have n: "\<forall>c\<in>set (slice (Input (NoWhitespace ?ps)) (Pos (NoWhitespace ?ps)) 1). \<not> isDigit c"
    by (simp add: NoWhitespace_def slice_def isDigit_def)
  have e: "ErrorHere (NoWhitespace ?ps) ''number'' =
      \<lparr>Input = ''-'', Pos = 0, Error = \<lparr>expected = ''number'', pos = 0\<rparr>\<rparr>"
    by (simp add: ErrorHere_def NoWhitespace_def)
  have "\<exists>node'. NumberLit NoWhitespace ?ps (Result [] [] None 0 0) =
      (ErrorHere (NoWhitespace ?ps) ''number'', node', False)"
    using NumberLit_examples [of "\<lparr>expected = [], pos = 0\<rparr>" "Result [] [] None 0 0"] s n
    by blast
  then show ?thesis
    unfolding e using scanNumber_examples(6) by (simp add: slice_def isDigit_def)
qed

text \<open>
  C5. With the built-in delimiter matcher and no whitespace to skip, the replace form
  parses \<open>/foo/bar/\<close> into the two children with tokens \<open>foo\<close> and \<open>bar\<close>; it
  parses \<open>(foo)[bar]\<close> into the same two tokens, the second opener \<open>[\<close> being valid
  on its own. Every successful replace parse leaves exactly two children in the node, the
  first from the first scan (the pattern) and the second from the second scan (the
  replacement), which starts further in the input.
\<close>

theorem replace_literal_children:
  "UnicodeRegexpReplaceLiteral pt NoWhitespace \<lparr>Input = ''/foo/bar/'', Pos = 0, Error = err\<rparr> node =
     Some (\<lparr>Input = ''/foo/bar/'', Pos = 9, Error = err\<rparr>,
           with_Child node [Result ''foo'' (Child node) (Payload node) 1 (End node),
                            Result ''bar'' (Child node) (Payload node) 5 (End node)],
           True) \<and>
   IsValidRegexpDelimiter pt 0x5B = (True, 0x5D) \<and>
   UnicodeRegexpReplaceLiteral pt NoWhitespace \<lparr>Input = ''(foo)[bar]'', Pos = 0, Error = err\<rparr> node =
     Some (\<lparr>Input = ''(foo)[bar]'', Pos = 10, Error = err\<rparr>,
           with_Child node [Result ''foo'' (Child node) (Payload node) 1 (End node),
                            Result ''bar'' (Child node) (Payload node) 6 (End node)],
           True) \<and>
   (\<forall>ws isValid escapes ps ps' node'.
      CustomRegexpReplaceLiteral pt ws isValid escapes ps node = Some (ps', node', True) \<longrightarrow>
      (\<exists>c1 c2 psa closer ps1 ps2 closer2.
         node' = with_Child node [c1, c2] \<and>
         stringImpl psa (with_Start node (Pos psa)) closer escapes = (ps1, c1, True) \<and>
         stringImpl ps2 (with_Start node (Pos ps2)) closer2 Escapes = (ps', c2, True) \<and>
         Start c1 < Start c2))"
proof -
  have a: "UnicodeRegexpReplaceLiteral pt NoWhitespace \<lparr>Input = ''/foo/bar/'', Pos = 0, Error = err\<rparr> node =
     Some (\<lparr>Input = ''/foo/bar/'', Pos = 9, Error = err\<rparr>,
           with_Child node [Result ''foo'' (Child node) (Payload node) 1 (End node),
                            Result ''bar'' (Child node) (Payload node) 5 (End node)],
           True)"
    by (simp add: parser_eval scan_eval)
  have b: "IsValidRegexpDelimiter pt 0x5B = (True, 0x5D)"
    by (simp add: parser_eval)
  have c: "UnicodeRegexpReplaceLiteral pt NoWhitespace \<lparr>Input = ''(foo)[bar]'', Pos = 0, Error = err\<rparr> node =
     Some (\<lparr>Input = ''(foo)[bar]'', Pos = 10, Error = err\<rparr>,
           with_Child node [Result ''foo'' (Child node) (Payload node) 1 (End node),
                            Result ''bar'' (Child node) (Payload node) 6 (End node)],
           True)"
    by (simp add: parser_eval scan_eval)
  have d: "\<exists>c1 c2 psa closer ps1 ps2 closer2.
         node' = with_Child node [c1, c2] \<and>
         stringImpl psa (with_Start node (Pos psa)) closer escapes = (ps1, c1, True) \<and>
         stringImpl ps2 (with_Start node (Pos ps2)) closer2 Escapes = (ps', c2, True) \<and>
         Start c1 < Start c2"
    if h: "CustomRegexpReplaceLiteral pt ws isValid escapes ps node = Some (ps', node', True)"
    for ws isValid escapes ps ps' node'
  proof -
    from replace_success [OF h] obtain c1 c2 psa closer ps1 ps2 closer2 where
      *: "node' = with_Child node [c1, c2]"
         "stringImpl psa (with_Start node (Pos psa)) closer escapes = (ps1, c1, True)"
         "Pos ps1 \<le> Pos ps2"
         "stringImpl ps2 (with_Start node (Pos ps2)) closer2 Escapes = (ps', c2, True)"
      by blast
    have "Start c1 = Pos psa" "Pos psa < Pos ps1"
      using stringImpl_success_Start [OF *(2)] by (simp_all add: with_Start_def)
    moreover have "Start c2 = Pos ps2"
      using stringImpl_success_Start [OF *(4)] by (simp add: with_Start_def)
    ultimately have "Start c1 < Start c2" using *(3) by simp
    with * show ?thesis by blast
  qed
  from a b c d show ?thesis by blast
qed

theorem replace_literal_children_witness:
  "CustomRegexpReplaceLiteral (\<lambda>r. False) NoWhitespace (IsValidRegexpDelimiter (\<lambda>r. False)) Escapes
      \<lparr>Input = ''(foo)[bar]'', Pos = 0, Error = \<lparr>expected = [], pos = 0\<rparr>\<rparr> (Result [] [] None 0 0) =
     Some (\<lparr>Input = ''(foo)[bar]'', Pos = 10, Error = \<lparr>expected = [], pos = 0\<rparr>\<rparr>,
           Result [] [Result ''foo'' [] None 1 0, Result ''bar'' [] None 6 0] None 0 0, True) \<and>
   (\<exists>c1 c2. Result [] [Result ''foo'' [] None 1 0, Result ''bar'' [] None 6 0] None 0 0 =
       with_Child (Result [] [] None 0 0) [c1, c2] \<and> Start c1 < Start c2)"
proof -
  have h: "CustomRegexpReplaceLiteral (\<lambda>r. False) NoWhitespace (IsValidRegexpDelimiter (\<lambda>r. False)) Escapes
      \<lparr>Input = ''(foo)[bar]'', Pos = 0, Error = \<lparr>expected = [], pos = 0\<rparr>\<rparr> (Result [] [] None 0 0) =
     Some (\<lparr>Input = ''(foo)[bar]'', Pos = 10, Error = \<lparr>expected = [], pos = 0\<rparr>\<rparr>,
           Result [] [Result ''foo'' [] None 1 0, Result ''bar'' [] None 6 0] None 0 0, True)"
    by (simp add: parser_eval scan_eval)
  from replace_literal_children [of "\<lambda>r. False" "\<lparr>expected = [], pos = 0\<rparr>" "Result [] [] None 0 0"] h
  show ?thesis by blast
qed

text \<open>
  C6, as amended. A scan that fails has not moved the cursor and has not changed the
  node. Unless it failed at a \<^verbatim>\<open>\u\<close> escape (a hex-digit error, positioned beyond
  the start of the segment), it reached the end of the input without an unescaped closer,
  and then, the stored error position being at or before the cursor, the recorded
  expectation is the closer and the recorded position is the cursor, which the scan never
  advances: for a string literal that is the offset of the opening delimiter, not the end
  of the input.
\<close>

theorem unterminated_scan:
  assumes "stringImpl ps node closer escapes = (ps', node', False)"
    and "pos (Error ps) \<le> Pos ps"
  shows "Pos ps' = Pos ps \<and> Input ps' = Input ps \<and> node' = node \<and>
         (Error ps' = \<lparr>expected = EncodeRune closer, pos = Pos ps\<rparr> \<or>
          (\<exists>p. Start node < p \<and>
             (Error ps' = \<lparr>expected = ''[a-f0-9]{4}'', pos = p\<rparr> \<or>
              Error ps' = \<lparr>expected = ''[a-f0-9]'', pos = p\<rparr>)))"
proof -
  from stringImpl_failure [OF assms(1)]
  have a: "node' = node" "Pos ps' = Pos ps" "Input ps' = Input ps"
    and b: "ps' = ErrorHere ps (EncodeRune closer) \<or>
          (\<exists>p. Start node < p \<and>
             (ps' = ps\<lparr>Error := \<lparr>expected = hex4_label, pos = p\<rparr>\<rparr> \<or>
              ps' = ps\<lparr>Error := \<lparr>expected = hex_label, pos = p\<rparr>\<rparr>))"
    by simp_all
  from b have "Error ps' = \<lparr>expected = EncodeRune closer, pos = Pos ps\<rparr> \<or>
          (\<exists>p. Start node < p \<and>
             (Error ps' = \<lparr>expected = ''[a-f0-9]{4}'', pos = p\<rparr> \<or>
              Error ps' = \<lparr>expected = ''[a-f0-9]'', pos = p\<rparr>))"
  proof (elim disjE exE conjE)
    assume "ps' = ErrorHere ps (EncodeRune closer)"
    then show ?thesis using assms(2) by (simp add: ErrorHere_simps)
  next
    fix p assume "Start node < p" "ps' = ps\<lparr>Error := \<lparr>expected = hex4_label, pos = p\<rparr>\<rparr>"
    then have "Start node < p \<and> Error ps' = \<lparr>expected = ''[a-f0-9]{4}'', pos = p\<rparr>"
      by (simp add: hex4_label_def)
    then show ?thesis by blast
  next
    fix p assume "Start node < p" "ps' = ps\<lparr>Error := \<lparr>expected = hex_label, pos = p\<rparr>\<rparr>"
    then have "Start node < p \<and> Error ps' = \<lparr>expected = ''[a-f0-9]'', pos = p\<rparr>"
      by (simp add: hex_label_def)
    then show ?thesis by blast
  qed
  with a show ?thesis by simp
qed

theorem unterminated_scan_witness:
  "stringImpl \<lparr>Input = CHR 0x22 # ''abc'', Pos = 0, Error = \<lparr>expected = [], pos = 0\<rparr>\<rparr>
     (Result [] [] None 1 0) 0x22 Escapes =
     (\<lparr>Input = CHR 0x22 # ''abc'', Pos = 0, Error = \<lparr>expected = [CHR 0x22], pos = 0\<rparr>\<rparr>,
      Result [] [] None 1 0, False) \<and>
   EncodeRune 0x22 = [CHR 0x22] \<and>
   (\<lparr>expected = [CHR 0x22], pos = 0\<rparr> = \<lparr>expected = EncodeRune 0x22, pos = 0\<rparr> \<or>
    (\<exists>p. 1 < p \<and>
       (\<lparr>expected = [CHR 0x22], pos = 0\<rparr> = \<lparr>expected = ''[a-f0-9]{4}'', pos = p\<rparr> \<or>
        \<lparr>expected = [CHR 0x22], pos = 0\<rparr> = \<lparr>expected = ''[a-f0-9]'', pos = p\<rparr>)))"
proof -
  let ?ps = "\<lparr>Input = CHR 0x22 # ''abc'', Pos = 0, Error = \<lparr>expected = [], pos = 0\<rparr>\<rparr>"
  let ?ps' = "\<lparr>Input = CHR 0x22 # ''abc'', Pos = 0, Error = \<lparr>expected = [CHR 0x22], pos = 0\<rparr>\<rparr>"
  have run: "stringImpl ?ps (Result [] [] None 1 0) 0x22 Escapes = (?ps', Result [] [] None 1 0, False)"
    by (simp add: scan_eval)
  have sink: "pos (Error ?ps) \<le> Pos ?ps" by simp
  have enc: "EncodeRune 0x22 = [CHR 0x22]" by (simp add: EncodeRune_def char_of_def)
  from unterminated_scan [OF run sink] run enc show ?thesis by simp
qed

text \<open>
  C6 as the specification states it fails on the unterminated literal \<^verbatim>\<open>"abc\<close>:
  the error is recorded at offset 0, the end of the input is offset 4.
\<close>

theorem unterminated_scan_counterexample:
  "StringLit NoWhitespace [CHR 0x22]
     \<lparr>Input = CHR 0x22 # ''abc'', Pos = 0, Error = \<lparr>expected = [], pos = 0\<rparr>\<rparr>
     (Result [] [] None 0 0) =
     Some (\<lparr>Input = CHR 0x22 # ''abc'', Pos = 0, Error = \<lparr>expected = [CHR 0x22], pos = 0\<rparr>\<rparr>,
           Result [] [] None 1 0, False) \<and>
   (0 :: nat) \<noteq> length (CHR 0x22 # ''abc'')"
  by (simp add: parser_eval scan_eval)

text \<open>
  C7. \<^verbatim>\<open>IsValidRegexpDelimiter\<close> looks the code point up in the initial/final quote
  pairs, then in the two tables of open/close punctuation pairs, then in the symmetric
  table, which holds only \<open><\<close> paired with \<open>>\<close>, and the first table that has it gives
  the closer. A code point in none of them is valid, and closes itself, exactly when it is
  Unicode punctuation or \<open>>\<close>; everything else is rejected with closer \<open>-1\<close>. So
  \<open>(\<close> pairs with \<open>)\<close>, the double quote and \<open>/\<close> pair with themselves, and a
  letter is rejected.
\<close>

theorem IsValidRegexpDelimiter_order:
  "IsValidRegexpDelimiter pt r =
     (case map_of PiPf r of Some c \<Rightarrow> (True, c) | None \<Rightarrow>
      case map_of PsPf r of Some c \<Rightarrow> (True, c) | None \<Rightarrow>
      case map_of PsPe r of Some c \<Rightarrow> (True, c) | None \<Rightarrow>
      case map_of SmSm r of Some c \<Rightarrow> (True, c) | None \<Rightarrow>
      if IsPunct pt r \<or> r = 0x3E then (True, r) else (False, - 1)) \<and>
   SmSm = [(0x3C, 0x3E)] \<and>
   IsValidRegexpDelimiter pt 0x28 = (True, 0x29) \<and>
   IsValidRegexpDelimiter pt 0x22 = (True, 0x22) \<and>
   IsValidRegexpDelimiter pt 0x2F = (True, 0x2F) \<and>
   IsValidRegexpDelimiter pt 0x3C = (True, 0x3E) \<and>
   IsValidRegexpDelimiter pt 0x3E = (True, 0x3E) \<and>
   IsValidRegexpDelimiter pt 0x78 = (False, - 1)"
proof -
  have "IsValidRegexpDelimiter pt r =
     (case map_of PiPf r of Some c \<Rightarrow> (True, c) | None \<Rightarrow>
      case map_of PsPf r of Some c \<Rightarrow> (True, c) | None \<Rightarrow>
      case map_of PsPe r of Some c \<Rightarrow> (True, c) | None \<Rightarrow>
      case map_of SmSm r of Some c \<Rightarrow> (True, c) | None \<Rightarrow>
      if IsPunct pt r \<or> r = 0x3E then (True, r) else (False, - 1))"
    by (simp add: IsValidRegexpDelimiter_def split: option.splits)
  moreover have "IsValidRegexpDelimiter pt 0x28 = (True, 0x29)" by (simp add: parser_eval)
  moreover have "IsValidRegexpDelimiter pt 0x22 = (True, 0x22)" by (simp add: parser_eval)
  moreover have "IsValidRegexpDelimiter pt 0x2F = (True, 0x2F)" by (simp add: parser_eval)
  moreover have "IsValidRegexpDelimiter pt 0x3C = (True, 0x3E)" by (simp add: parser_eval)
  moreover have "IsValidRegexpDelimiter pt 0x3E = (True, 0x3E)" by (simp add: parser_eval)
  moreover have "IsValidRegexpDelimiter pt 0x78 = (False, - 1)" by (simp add: parser_eval)
  ultimately show ?thesis by (simp add: SmSm_def)
qed

text \<open>
  C8, as amended. When the opening code point of a literal is rejected (it is not among
  the allowed quotes of the fixed form, or the validity function of a custom form rejects
  it), the parser fails at once: the node is unchanged, the cursor stays where whitespace
  skipping left it, and the error goes to the sink at that position, the attempted
  opening position, with the allowed quotes or the delimiter label as expectation. When
  the built-in matcher rejects the fresh second opening delimiter of the asymmetric
  replace form, the parser fails with the regexp-delimiter expectation and leaves the node
  unchanged, but the first segment stays consumed: the cursor, and the recorded error, are
  at or beyond the position just past the first closer.
\<close>

theorem delimiter_rejected:
  assumes "Pos (ws ps) \<le> length (Input (ws ps))"
    and "DecodeRuneInString (drop (Pos (ws ps)) (Input (ws ps))) = (opener, w)"
  shows "(\<not> stringContainsRune allowedQuotes opener \<longrightarrow>
            StringLit ws allowedQuotes ps node = Some (ErrorHere (ws ps) allowedQuotes, node, False)) \<and>
         (\<not> fst (isValid opener) \<longrightarrow>
            CustomStringLiteral ws isValid escapes ps node =
              Some (ErrorHere (ws ps) ''string delimiter'', node, False) \<and>
            CustomRegexpMatchLiteral ws isValid escapes ps node =
              Some (ErrorHere (ws ps) ''regexp delimiter'', node, False) \<and>
            CustomRegexpReplaceLiteral pt ws isValid escapes ps node =
              Some (ErrorHere (ws ps) ''regexp delimiter'', node, False)) \<and>
         (\<forall>l. Pos (ErrorHere (ws ps) l) = Pos (ws ps) \<and>
              Input (ErrorHere (ws ps) l) = Input (ws ps) \<and>
              (pos (Error (ws ps)) \<le> Pos (ws ps) \<longrightarrow>
                 Error (ErrorHere (ws ps) l) = \<lparr>expected = l, pos = Pos (ws ps)\<rparr>)) \<and>
         (\<forall>closer ps1 child1 opener2 w2.
            isValid opener = (True, closer) \<and> closer \<noteq> opener \<and>
            stringImpl ((ws ps)\<lparr>Pos := Pos (ws ps) + w\<rparr>) (with_Start node (Pos (ws ps) + w))
              closer escapes = (ps1, child1, True) \<and>
            DecodeRuneInString (drop (Pos ps1) (Input ps1)) = (opener2, w2) \<and>
            \<not> fst (IsValidRegexpDelimiter pt opener2) \<longrightarrow>
            (\<exists>ps'. CustomRegexpReplaceLiteral pt ws isValid escapes ps node = Some (ps', node, False) \<and>
                   Pos (ws ps) < Pos ps1 \<and> Pos ps1 \<le> Pos ps' \<and>
                   (pos (Error ps1) \<le> Pos ps1 \<longrightarrow>
                      expected (Error ps') = ''regexp delimiter'' \<and> Pos ps1 \<le> pos (Error ps'))))"
proof -
  note f = first_delimiter_rejected [of ws ps opener w, OF assms]
  have second: "\<exists>ps'. CustomRegexpReplaceLiteral pt ws isValid escapes ps node = Some (ps', node, False) \<and>
                   Pos (ws ps) < Pos ps1 \<and> Pos ps1 \<le> Pos ps' \<and>
                   (pos (Error ps1) \<le> Pos ps1 \<longrightarrow>
                      expected (Error ps') = ''regexp delimiter'' \<and> Pos ps1 \<le> pos (Error ps'))"
    if v: "isValid opener = (True, closer)" and ne: "closer \<noteq> opener"
      and s: "stringImpl ((ws ps)\<lparr>Pos := Pos (ws ps) + w\<rparr>) (with_Start node (Pos (ws ps) + w))
              closer escapes = (ps1, child1, True)"
      and d2: "DecodeRuneInString (drop (Pos ps1) (Input ps1)) = (opener2, w2)"
      and bad: "\<not> fst (IsValidRegexpDelimiter pt opener2)"
    for closer ps1 child1 opener2 w2
  proof -
    let ?ps' = "ErrorHere (ps1\<lparr>Pos := Pos ps1 + w2\<rparr>) ''regexp delimiter''"
    have "CustomRegexpReplaceLiteral pt ws isValid escapes ps node = Some (?ps', node, False)"
      using replace_after_first_segment [of ws ps opener w isValid closer node escapes ps1 child1 pt, OF assms v s]
        secondSegment_asymmetric [OF ne d2, of pt node child1] bad by simp
    moreover have "Pos (ws ps) < Pos ps1"
      using stringImpl_success_Start [OF s] by (simp add: with_Start_def)
    moreover have "Pos ps1 \<le> Pos ?ps'" by (simp add: ErrorHere_simps)
    moreover have "expected (Error ?ps') = ''regexp delimiter'' \<and> Pos ps1 \<le> pos (Error ?ps')"
      if "pos (Error ps1) \<le> Pos ps1"
      using that by (simp add: ErrorHere_def)
    ultimately show ?thesis by blast
  qed
  have sink: "\<forall>l. Pos (ErrorHere (ws ps) l) = Pos (ws ps) \<and>
              Input (ErrorHere (ws ps) l) = Input (ws ps) \<and>
              (pos (Error (ws ps)) \<le> Pos (ws ps) \<longrightarrow>
                 Error (ErrorHere (ws ps) l) = \<lparr>expected = l, pos = Pos (ws ps)\<rparr>)"
    by (simp add: ErrorHere_simps)
  from f sink second show ?thesis by blast
qed

theorem delimiter_rejected_witness:
  "DecodeRuneInString (drop 0 ''xfoo'') = (0x78, 1) \<and>
   \<not> stringContainsRune [CHR 0x22] 0x78 \<and>
   StringLit NoWhitespace [CHR 0x22] \<lparr>Input = ''xfoo'', Pos = 0, Error = \<lparr>expected = [], pos = 0\<rparr>\<rparr>
     (Result [] [] None 0 0) =
     Some (\<lparr>Input = ''xfoo'', Pos = 0, Error = \<lparr>expected = [CHR 0x22], pos = 0\<rparr>\<rparr>,
           Result [] [] None 0 0, False) \<and>
   \<not> fst (IsValidRegexpDelimiter latin1Only 0x78) \<and>
   CustomRegexpReplaceLiteral latin1Only NoWhitespace (IsValidRegexpDelimiter latin1Only) Escapes
     \<lparr>Input = ''xfoo'', Pos = 0, Error = \<lparr>expected = [], pos = 0\<rparr>\<rparr> (Result [] [] None 0 0) =
     Some (\<lparr>Input = ''xfoo'', Pos = 0, Error = \<lparr>expected = ''regexp delimiter'', pos = 0\<rparr>\<rparr>,
           Result [] [] None 0 0, False) \<and>
   IsValidRegexpDelimiter latin1Only 0x28 = (True, 0x29) \<and>
   stringImpl \<lparr>Input = ''(foo)x'', Pos = 1, Error = \<lparr>expected = [], pos = 0\<rparr>\<rparr>
     (Result [] [] None 1 0) 0x29 Escapes =
     (\<lparr>Input = ''(foo)x'', Pos = 5, Error = \<lparr>expected = [], pos = 0\<rparr>\<rparr>,
      Result ''foo'' [] None 1 0, True) \<and>
   (\<exists>ps'. CustomRegexpReplaceLiteral latin1Only NoWhitespace (IsValidRegexpDelimiter latin1Only)
            Escapes \<lparr>Input = ''(foo)x'', Pos = 0, Error = \<lparr>expected = [], pos = 0\<rparr>\<rparr>
            (Result [] [] None 0 0) = Some (ps', Result [] [] None 0 0, False) \<and>
          5 \<le> Pos ps' \<and> expected (Error ps') = ''regexp delimiter'' \<and> 5 \<le> pos (Error ps'))"
proof -
  let ?ps = "\<lparr>Input = ''xfoo'', Pos = 0, Error = \<lparr>expected = [], pos = 0\<rparr>\<rparr>"
  let ?n = "Result [] [] None 0 0"
  have r: "Pos (NoWhitespace ?ps) \<le> length (Input (NoWhitespace ?ps))"
    by (simp add: NoWhitespace_def)
  have d: "DecodeRuneInString (drop (Pos (NoWhitespace ?ps)) (Input (NoWhitespace ?ps))) = (0x78, 1)"
    by (simp add: NoWhitespace_def)
  have q: "\<not> stringContainsRune [CHR 0x22] 0x78"
    by (simp add: stringContainsRune_def Runes.simps)
  have v: "\<not> fst (IsValidRegexpDelimiter latin1Only 0x78)"
    by (simp add: parser_eval latin1Only_def)
  have e: "ErrorHere (NoWhitespace ?ps) l = \<lparr>Input = ''xfoo'', Pos = 0, Error = \<lparr>expected = l, pos = 0\<rparr>\<rparr>" for l
    by (simp add: ErrorHere_def NoWhitespace_def)
  from delimiter_rejected [of NoWhitespace ?ps "0x78" 1 "[CHR 0x22]" ?n
      "IsValidRegexpDelimiter latin1Only" Escapes latin1Only, OF r d] q v
  have first: "StringLit NoWhitespace [CHR 0x22] ?ps ?n =
      Some (\<lparr>Input = ''xfoo'', Pos = 0, Error = \<lparr>expected = [CHR 0x22], pos = 0\<rparr>\<rparr>, ?n, False) \<and>
    CustomRegexpReplaceLiteral latin1Only NoWhitespace (IsValidRegexpDelimiter latin1Only) Escapes ?ps ?n =
      Some (\<lparr>Input = ''xfoo'', Pos = 0, Error = \<lparr>expected = ''regexp delimiter'', pos = 0\<rparr>\<rparr>, ?n, False)"
    by (simp add: e)
  let ?b = "\<lparr>Input = ''(foo)x'', Pos = 0, Error = \<lparr>expected = [], pos = 0\<rparr>\<rparr>"
  let ?b1 = "\<lparr>Input = ''(foo)x'', Pos = 5, Error = \<lparr>expected = [], pos = 0\<rparr>\<rparr>"
  have b1: "Pos (NoWhitespace ?b) \<le> length (Input (NoWhitespace ?b))"
    and b2: "DecodeRuneInString (drop (Pos (NoWhitespace ?b)) (Input (NoWhitespace ?b))) = (0x28, 1)"
    by (simp_all add: NoWhitespace_def)
  have b3: "IsValidRegexpDelimiter latin1Only 0x28 = (True, 0x29)"
    by (simp add: parser_eval)
  have b4: "stringImpl ((NoWhitespace ?b)\<lparr>Pos := Pos (NoWhitespace ?b) + 1\<rparr>)
               (with_Start ?n (Pos (NoWhitespace ?b) + 1)) 0x29 Escapes =
             (?b1, Result ''foo'' [] None 1 0, True)"
    by (simp add: NoWhitespace_def with_Start_def scan_eval)
  have b5: "DecodeRuneInString (drop (Pos ?b1) (Input ?b1)) = (0x78, 1)" by simp
  have pre: "IsValidRegexpDelimiter latin1Only 0x28 = (True, 0x29) \<and> (0x29 :: rune) \<noteq> 0x28 \<and>
      stringImpl ((NoWhitespace ?b)\<lparr>Pos := Pos (NoWhitespace ?b) + 1\<rparr>)
               (with_Start ?n (Pos (NoWhitespace ?b) + 1)) 0x29 Escapes =
             (?b1, Result ''foo'' [] None 1 0, True) \<and>
      DecodeRuneInString (drop (Pos ?b1) (Input ?b1)) = (0x78, 1) \<and>
      \<not> fst (IsValidRegexpDelimiter latin1Only 0x78)"
    using b3 b4 b5 v by simp
  have "\<exists>ps'. CustomRegexpReplaceLiteral latin1Only NoWhitespace (IsValidRegexpDelimiter latin1Only)
            Escapes ?b ?n = Some (ps', ?n, False) \<and>
          Pos (NoWhitespace ?b) < Pos ?b1 \<and> Pos ?b1 \<le> Pos ps' \<and>
          (pos (Error ?b1) \<le> Pos ?b1 \<longrightarrow>
             expected (Error ps') = ''regexp delimiter'' \<and> Pos ?b1 \<le> pos (Error ps'))"
    using delimiter_rejected [of NoWhitespace ?b "0x28" 1 "[CHR 0x22]" ?n
      "IsValidRegexpDelimiter latin1Only" Escapes latin1Only, OF b1 b2] pre
    by blast
  then have second: "\<exists>ps'. CustomRegexpReplaceLiteral latin1Only NoWhitespace
            (IsValidRegexpDelimiter latin1Only) Escapes ?b ?n = Some (ps', ?n, False) \<and>
          5 \<le> Pos ps' \<and> expected (Error ps') = ''regexp delimiter'' \<and> 5 \<le> pos (Error ps')"
    by auto
  have s: "stringImpl \<lparr>Input = ''(foo)x'', Pos = 1, Error = \<lparr>expected = [], pos = 0\<rparr>\<rparr>
     (Result [] [] None 1 0) 0x29 Escapes = (?b1, Result ''foo'' [] None 1 0, True)"
    by (simp add: scan_eval)
  have d0: "DecodeRuneInString (drop 0 ''xfoo'') = (0x78, 1)" by simp
  from d0 q first v b3 s second show ?thesis by blast
qed

text \<open>
  C8 as the specification states it fails on the input \<^verbatim>\<open>(foo)x\<close>: the first scan
  ends at offset 5, where the second opening delimiter is attempted; the parser fails
  with the cursor and the error at offset 6.
\<close>

theorem delimiter_rejected_counterexample:
  "stringImpl \<lparr>Input = ''(foo)x'', Pos = 1, Error = \<lparr>expected = [], pos = 0\<rparr>\<rparr>
     (Result [] [] None 1 0) 0x29 Escapes =
     (\<lparr>Input = ''(foo)x'', Pos = 5, Error = \<lparr>expected = [], pos = 0\<rparr>\<rparr>,
      Result ''foo'' [] None 1 0, True) \<and>
   UnicodeRegexpReplaceLiteral latin1Only NoWhitespace
     \<lparr>Input = ''(foo)x'', Pos = 0, Error = \<lparr>expected = [], pos = 0\<rparr>\<rparr> (Result [] [] None 0 0) =
     Some (\<lparr>Input = ''(foo)x'', Pos = 6, Error = \<lparr>expected = ''regexp delimiter'', pos = 6\<rparr>\<rparr>,
           Result [] [] None 0 0, False) \<and>
   (6 :: nat) \<noteq> 0 \<and> (6 :: nat) \<noteq> 5"
  by (simp add: parser_eval scan_eval latin1Only_def)

text \<open>
  C9, as amended. A failing scan whose segment starts at or after the cursor leaves the
  cursor where it was and leaves a recorded error position at or beyond the cursor, and
  not before the position stored on entry when that one was at or before the cursor.
  The closer-expected errors go through the sink, which records at the cursor when the
  stored position is at or before the cursor and discards the failure otherwise. The
  hex-digit errors are written to the sink directly, without any comparison, at a
  position strictly beyond the cursor.
\<close>

theorem error_position_order:
  assumes "stringImpl ps node closer escapes = (ps', node', False)"
    and "Pos ps \<le> Start node"
  shows "Pos ps' = Pos ps \<and> Pos ps' \<le> pos (Error ps') \<and>
         (pos (Error ps) \<le> Pos ps \<longrightarrow> pos (Error ps) \<le> pos (Error ps')) \<and>
         (ps' = ErrorHere ps (EncodeRune closer) \<or>
          (Pos ps' < pos (Error ps') \<and> ps' = ps\<lparr>Error := Error ps'\<rparr> \<and>
           (expected (Error ps') = ''[a-f0-9]{4}'' \<or> expected (Error ps') = ''[a-f0-9]''))) \<and>
         (\<forall>l. Pos (ErrorHere ps l) = Pos ps \<and>
              (pos (Error ps) \<le> Pos ps \<longrightarrow> Error (ErrorHere ps l) = \<lparr>expected = l, pos = Pos ps\<rparr>) \<and>
              (Pos ps < pos (Error ps) \<longrightarrow> ErrorHere ps l = ps))"
proof -
  from stringImpl_failure [OF assms(1)]
  have a: "Pos ps' = Pos ps"
    and b: "ps' = ErrorHere ps (EncodeRune closer) \<or>
          (\<exists>p. Start node < p \<and>
             (ps' = ps\<lparr>Error := \<lparr>expected = hex4_label, pos = p\<rparr>\<rparr> \<or>
              ps' = ps\<lparr>Error := \<lparr>expected = hex_label, pos = p\<rparr>\<rparr>))"
    by simp_all
  have sink: "\<forall>l. Pos (ErrorHere ps l) = Pos ps \<and>
              (pos (Error ps) \<le> Pos ps \<longrightarrow> Error (ErrorHere ps l) = \<lparr>expected = l, pos = Pos ps\<rparr>) \<and>
              (Pos ps < pos (Error ps) \<longrightarrow> ErrorHere ps l = ps)"
    by (simp add: ErrorHere_def)
  from b have "Pos ps \<le> pos (Error ps') \<and>
         (pos (Error ps) \<le> Pos ps \<longrightarrow> pos (Error ps) \<le> pos (Error ps')) \<and>
         (ps' = ErrorHere ps (EncodeRune closer) \<or>
          (Pos ps < pos (Error ps') \<and> ps' = ps\<lparr>Error := Error ps'\<rparr> \<and>
           (expected (Error ps') = ''[a-f0-9]{4}'' \<or> expected (Error ps') = ''[a-f0-9]'')))"
  proof (elim disjE exE conjE)
    assume "ps' = ErrorHere ps (EncodeRune closer)"
    then show ?thesis by (simp add: ErrorHere_simps)
  next
    fix p assume "Start node < p" "ps' = ps\<lparr>Error := \<lparr>expected = hex4_label, pos = p\<rparr>\<rparr>"
    then show ?thesis using assms(2) by (simp add: hex4_label_def)
  next
    fix p assume "Start node < p" "ps' = ps\<lparr>Error := \<lparr>expected = hex_label, pos = p\<rparr>\<rparr>"
    then show ?thesis using assms(2) by (simp add: hex_label_def)
  qed
  with a sink show ?thesis by simp
qed

theorem error_position_order_witness:
  "stringImpl \<lparr>Input = [CHR 0x22, CHR 0x5C] @ ''u12'' @ [CHR 0x22], Pos = 0,
                Error = \<lparr>expected = [], pos = 0\<rparr>\<rparr> (Result [] [] None 1 0) 0x22 Escapes =
     (\<lparr>Input = [CHR 0x22, CHR 0x5C] @ ''u12'' @ [CHR 0x22], Pos = 0,
        Error = \<lparr>expected = ''[a-f0-9]{4}'', pos = 3\<rparr>\<rparr>, Result [] [] None 1 0, False) \<and>
   Pos \<lparr>Input = [CHR 0x22, CHR 0x5C] @ ''u12'' @ [CHR 0x22], Pos = 0,
        Error = \<lparr>expected = ''[a-f0-9]{4}'', pos = 3\<rparr>\<rparr>
     < pos (Error \<lparr>Input = [CHR 0x22, CHR 0x5C] @ ''u12'' @ [CHR 0x22], Pos = 0,
        Error = \<lparr>expected = ''[a-f0-9]{4}'', pos = 3\<rparr>\<rparr>) \<and>
   stringImpl \<lparr>Input = CHR 0x22 # ''abc'', Pos = 0, Error = \<lparr>expected = ''end of input'', pos = 4\<rparr>\<rparr>
     (Result [] [] None 1 0) 0x22 Escapes =
     (\<lparr>Input = CHR 0x22 # ''abc'', Pos = 0, Error = \<lparr>expected = ''end of input'', pos = 4\<rparr>\<rparr>,
      Result [] [] None 1 0, False) \<and>
   ErrorHere \<lparr>Input = CHR 0x22 # ''abc'', Pos = 0, Error = \<lparr>expected = ''end of input'', pos = 4\<rparr>\<rparr>
     (EncodeRune 0x22) =
     \<lparr>Input = CHR 0x22 # ''abc'', Pos = 0, Error = \<lparr>expected = ''end of input'', pos = 4\<rparr>\<rparr>"
proof -
  let ?ps = "\<lparr>Input = [CHR 0x22, CHR 0x5C] @ ''u12'' @ [CHR 0x22], Pos = 0,
                Error = \<lparr>expected = [], pos = 0\<rparr>\<rparr>"
  let ?ps' = "\<lparr>Input = [CHR 0x22, CHR 0x5C] @ ''u12'' @ [CHR 0x22], Pos = 0,
        Error = \<lparr>expected = ''[a-f0-9]{4}'', pos = 3\<rparr>\<rparr>"
  let ?n = "Result [] [] None 1 0"
  have run: "stringImpl ?ps ?n 0x22 Escapes = (?ps', ?n, False)"
    by (simp add: scan_eval)
  have st: "Pos ?ps \<le> Start ?n" by simp
  have ne: "?ps' \<noteq> ErrorHere ?ps (EncodeRune 0x22)" by (simp add: ErrorHere_def)
  have a: "Pos ?ps' < pos (Error ?ps')"
    using error_position_order [OF run st] ne by blast
  let ?qs = "\<lparr>Input = CHR 0x22 # ''abc'', Pos = 0, Error = \<lparr>expected = ''end of input'', pos = 4\<rparr>\<rparr>"
  have run2: "stringImpl ?qs ?n 0x22 Escapes = (?qs, ?n, False)"
    by (simp add: scan_eval)
  have st2: "Pos ?qs \<le> Start ?n" by simp
  have far: "Pos ?qs < pos (Error ?qs)" by simp
  have b: "ErrorHere ?qs (EncodeRune 0x22) = ?qs"
    using error_position_order [OF run2 st2] far by blast
  from run a run2 b show ?thesis by blast
qed

text \<open>
  C9 as the specification states it fails on the literal \<^verbatim>\<open>"\u12"\<close>: the error is
  recorded at offset 3 while the cursor is at offset 0, and it replaces a stored error at
  offset 6.
\<close>

theorem error_position_order_counterexample:
  "StringLit NoWhitespace [CHR 0x22]
     \<lparr>Input = [CHR 0x22, CHR 0x5C] @ ''u12'' @ [CHR 0x22], Pos = 0,
        Error = \<lparr>expected = [], pos = 0\<rparr>\<rparr> (Result [] [] None 0 0) =
     Some (\<lparr>Input = [CHR 0x22, CHR 0x5C] @ ''u12'' @ [CHR 0x22], Pos = 0,
             Error = \<lparr>expected = ''[a-f0-9]{4}'', pos = 3\<rparr>\<rparr>, Result [] [] None 1 0, False) \<and>
   \<not> (3 :: nat) \<le> 0 \<and>
   StringLit NoWhitespace [CHR 0x22]
     \<lparr>Input = [CHR 0x22, CHR 0x5C] @ ''u12'' @ [CHR 0x22], Pos = 0,
        Error = \<lparr>expected = ''end of input'', pos = 6\<rparr>\<rparr> (Result [] [] None 0 0) =
     Some (\<lparr>Input = [CHR 0x22, CHR 0x5C] @ ''u12'' @ [CHR 0x22], Pos = 0,
             Error = \<lparr>expected = ''[a-f0-9]{4}'', pos = 3\<rparr>\<rparr>, Result [] [] None 1 0, False) \<and>
   \<not> (6 :: nat) \<le> 3"
  by (simp add: parser_eval scan_eval)

text \<open>
  C10. In the replace form, once the first opener is accepted with a closer different
  from it and the first segment is scanned, the code point at the cursor is the second
  opening delimiter: it is validated by the built-in \<^verbatim>\<open>IsValidRegexpDelimiter\<close>, and
  the caller's validity function is consulted for the first opener only (two validity
  functions that agree on the first opener give the same parse). The cursor is moved past
  the second opener before the result of the validation is looked at, so when it is
  rejected the parser fails with the cursor just past the rejected code point.
\<close>

theorem second_delimiter_builtin:
  assumes "Pos (ws ps) \<le> length (Input (ws ps))"
    and "DecodeRuneInString (drop (Pos (ws ps)) (Input (ws ps))) = (opener, w)"
    and "isValid opener = (True, closer)"
    and "closer \<noteq> opener"
    and "stringImpl ((ws ps)\<lparr>Pos := Pos (ws ps) + w\<rparr>) (with_Start node (Pos (ws ps) + w))
           closer escapes = (ps1, child1, True)"
    and "DecodeRuneInString (drop (Pos ps1) (Input ps1)) = (opener2, w2)"
  shows "CustomRegexpReplaceLiteral pt ws isValid escapes ps node =
           Some (if \<not> fst (IsValidRegexpDelimiter pt opener2)
                 then (ErrorHere (ps1\<lparr>Pos := Pos ps1 + w2\<rparr>) ''regexp delimiter'', node, False)
                 else replacementSegment (ps1\<lparr>Pos := Pos ps1 + w2\<rparr>) node child1
                        (snd (IsValidRegexpDelimiter pt opener2))) \<and>
         (\<forall>isValid'. isValid' opener = isValid opener \<longrightarrow>
            CustomRegexpReplaceLiteral pt ws isValid' escapes ps node =
            CustomRegexpReplaceLiteral pt ws isValid escapes ps node) \<and>
         (\<not> fst (IsValidRegexpDelimiter pt opener2) \<longrightarrow>
            (\<exists>ps'. CustomRegexpReplaceLiteral pt ws isValid escapes ps node = Some (ps', node, False) \<and>
                   Pos ps' = Pos ps1 + w2))"
proof -
  let ?r = "if \<not> fst (IsValidRegexpDelimiter pt opener2)
                 then (ErrorHere (ps1\<lparr>Pos := Pos ps1 + w2\<rparr>) ''regexp delimiter'', node, False)
                 else replacementSegment (ps1\<lparr>Pos := Pos ps1 + w2\<rparr>) node child1
                        (snd (IsValidRegexpDelimiter pt opener2))"
  have run: "CustomRegexpReplaceLiteral pt ws f escapes ps node = Some ?r"
    if "f opener = (True, closer)" for f
    using replace_after_first_segment [of ws ps opener w f closer node escapes ps1 child1 pt,
        OF assms(1,2) that assms(5)]
      secondSegment_asymmetric [OF assms(4,6), of pt node child1]
    by simp
  have a: "CustomRegexpReplaceLiteral pt ws isValid escapes ps node = Some ?r"
    using run [of isValid] assms(3) by simp
  have b: "CustomRegexpReplaceLiteral pt ws isValid' escapes ps node =
            CustomRegexpReplaceLiteral pt ws isValid escapes ps node"
    if "isValid' opener = isValid opener" for isValid'
    using run [of isValid'] a that assms(3) by simp
  have c: "\<exists>ps'. CustomRegexpReplaceLiteral pt ws isValid escapes ps node = Some (ps', node, False) \<and>
                   Pos ps' = Pos ps1 + w2"
    if "\<not> fst (IsValidRegexpDelimiter pt opener2)"
    using a that by (simp add: ErrorHere_simps)
  from a b c show ?thesis by blast
qed

theorem second_delimiter_builtin_witness:
  "parenOnly 0x28 = (True, 0x29) \<and> parenOnly 0x5B = (False, - 1) \<and>
   IsValidRegexpDelimiter latin1Only 0x5B = (True, 0x5D) \<and>
   CustomRegexpReplaceLiteral latin1Only NoWhitespace parenOnly Escapes
     \<lparr>Input = ''(foo)[bar]'', Pos = 0, Error = \<lparr>expected = [], pos = 0\<rparr>\<rparr> (Result [] [] None 0 0) =
     Some (\<lparr>Input = ''(foo)[bar]'', Pos = 10, Error = \<lparr>expected = [], pos = 0\<rparr>\<rparr>,
           Result [] [Result ''foo'' [] None 1 0, Result ''bar'' [] None 6 0] None 0 0, True) \<and>
   IsValidRegexpDelimiter latin1Only 0x78 = (False, - 1) \<and>
   CustomRegexpReplaceLiteral latin1Only NoWhitespace parenOnly Escapes
     \<lparr>Input = ''(foo)x'', Pos = 0, Error = \<lparr>expected = [], pos = 0\<rparr>\<rparr> (Result [] [] None 0 0) =
     Some (\<lparr>Input = ''(foo)x'', Pos = 6, Error = \<lparr>expected = ''regexp delimiter'', pos = 6\<rparr>\<rparr>,
           Result [] [] None 0 0, False)"
proof -
  let ?g = "\<lparr>Input = ''(foo)[bar]'', Pos = 0, Error = \<lparr>expected = [], pos = 0\<rparr>\<rparr>"
  let ?b = "\<lparr>Input = ''(foo)x'', Pos = 0, Error = \<lparr>expected = [], pos = 0\<rparr>\<rparr>"
  let ?n = "Result [] [] None 0 0"
  have v: "parenOnly 0x28 = (True, 0x29)" "parenOnly 0x5B = (False, - 1)" "(0x29 :: rune) \<noteq> 0x28"
    by (simp_all add: parenOnly_def)
  have m: "IsValidRegexpDelimiter latin1Only 0x5B = (True, 0x5D)"
    "IsValidRegexpDelimiter latin1Only 0x78 = (False, - 1)"
    by (simp_all add: parser_eval latin1Only_def)
  have g1: "Pos (NoWhitespace ?g) \<le> length (Input (NoWhitespace ?g))"
    and g2: "DecodeRuneInString (drop (Pos (NoWhitespace ?g)) (Input (NoWhitespace ?g))) = (0x28, 1)"
    and g3: "stringImpl ((NoWhitespace ?g)\<lparr>Pos := Pos (NoWhitespace ?g) + 1\<rparr>)
               (with_Start ?n (Pos (NoWhitespace ?g) + 1)) 0x29 Escapes =
             (?g\<lparr>Pos := 5\<rparr>, Result ''foo'' [] None 1 0, True)"
    and g4: "DecodeRuneInString (drop (Pos (?g\<lparr>Pos := 5\<rparr>)) (Input (?g\<lparr>Pos := 5\<rparr>))) = (0x5B, 1)"
    by (simp_all add: NoWhitespace_def with_Start_def scan_eval)
  have g5: "replacementSegment (?g\<lparr>Pos := 5\<rparr>\<lparr>Pos := Pos (?g\<lparr>Pos := 5\<rparr>) + 1\<rparr>) ?n
      (Result ''foo'' [] None 1 0) 0x5D =
      (\<lparr>Input = ''(foo)[bar]'', Pos = 10, Error = \<lparr>expected = [], pos = 0\<rparr>\<rparr>,
           Result [] [Result ''foo'' [] None 1 0, Result ''bar'' [] None 6 0] None 0 0, True)"
    by (simp add: replacementSegment_def with_Start_def with_Child_def scan_eval)
  have r1: "CustomRegexpReplaceLiteral latin1Only NoWhitespace parenOnly Escapes ?g ?n =
     Some (\<lparr>Input = ''(foo)[bar]'', Pos = 10, Error = \<lparr>expected = [], pos = 0\<rparr>\<rparr>,
           Result [] [Result ''foo'' [] None 1 0, Result ''bar'' [] None 6 0] None 0 0, True)"
    using second_delimiter_builtin [of NoWhitespace ?g "0x28" 1 parenOnly "0x29" ?n Escapes
        "?g\<lparr>Pos := 5\<rparr>" "Result ''foo'' [] None 1 0" "0x5B" 1 latin1Only,
        OF g1 g2 v(1) v(3) g3 g4, THEN conjunct1]
    by (simp only: m fst_conv snd_conv not_True_eq_False if_False g5)
  have b1: "Pos (NoWhitespace ?b) \<le> length (Input (NoWhitespace ?b))"
    and b2: "DecodeRuneInString (drop (Pos (NoWhitespace ?b)) (Input (NoWhitespace ?b))) = (0x28, 1)"
    and b3: "stringImpl ((NoWhitespace ?b)\<lparr>Pos := Pos (NoWhitespace ?b) + 1\<rparr>)
               (with_Start ?n (Pos (NoWhitespace ?b) + 1)) 0x29 Escapes =
             (?b\<lparr>Pos := 5\<rparr>, Result ''foo'' [] None 1 0, True)"
    and b4: "DecodeRuneInString (drop (Pos (?b\<lparr>Pos := 5\<rparr>)) (Input (?b\<lparr>Pos := 5\<rparr>))) = (0x78, 1)"
    by (simp_all add: NoWhitespace_def with_Start_def scan_eval)
  have b5: "ErrorHere (?b\<lparr>Pos := 5\<rparr>\<lparr>Pos := Pos (?b\<lparr>Pos := 5\<rparr>) + 1\<rparr>) ''regexp delimiter'' =
      \<lparr>Input = ''(foo)x'', Pos = 6, Error = \<lparr>expected = ''regexp delimiter'', pos = 6\<rparr>\<rparr>"
    by (simp add: ErrorHere_def)
  have r2: "CustomRegexpReplaceLiteral latin1Only NoWhitespace parenOnly Escapes ?b ?n =
     Some (\<lparr>Input = ''(foo)x'', Pos = 6, Error = \<lparr>expected = ''regexp delimiter'', pos = 6\<rparr>\<rparr>,
           ?n, False)"
    using second_delimiter_builtin [of NoWhitespace ?b "0x28" 1 parenOnly "0x29" ?n Escapes
        "?b\<lparr>Pos := 5\<rparr>" "Result ''foo'' [] None 1 0" "0x78" 1 latin1Only,
        OF b1 b2 v(1) v(3) b3 b4, THEN conjunct1]
    by (simp only: m fst_conv snd_conv not_False_eq_True if_True b5)
  from v(1,2) m r1 r2 show ?thesis by blast
qed

end
